theory Spec2Isabelle
  imports Complex_Main
begin

text \<open>
  A model of the pitch-interpolating sampler of Tone.js: \<open>Tone.MultiSampler\<close>
  (Tone/instrument/MultiSampler.js) and its Voice \<open>Tone.BufferSource\<close>
  (Tone/source/BufferSource.js), with the helpers of Tone/core/Tone.js they call.

  Numbers that are times, gains and rates are real numbers: rounding, \<open>NaN\<close> and the
  infinities of floating point are not modelled, except where the source can produce
  \<open>NaN\<close> from such numbers (the remainder by zero). MIDI numbers are integers. An
  argument that may be left out is an \<open>option\<close>, with \<open>None\<close> for
  \<open>undefined\<close>. An exception is a value of the type \<open>error\<close>, returned on the left
  of a sum. The audio graph, the native source node and the timers are outside the model;
  the calls a Voice makes on them are recorded in its fields.
\<close>

section \<open>JavaScript values, property keys and numeric parsing\<close>

text \<open>
  The values a caller passes as a note or as a sample key: a string, a number, or nothing.
  MIDI note numbers are integers; a number in the model is an integer-valued JavaScript
  number. \<open>NaN\<close> and \<open>Undefined\<close> are kept because \<open>add\<close> inspects its key
  with \<open>parseFloat\<close> and \<open>isNaN\<close>.
\<close>

datatype jsval = Str string | Num int | NaN | Undefined

definition digit_char :: "nat \<Rightarrow> char" where
  "digit_char d = ''0123456789'' ! (d mod 10)"

fun show_nat :: "nat \<Rightarrow> string" where
  "show_nat n = (if n < 10 then [digit_char n] else show_nat (n div 10) @ [digit_char (n mod 10)])"

declare show_nat.simps [simp del]

text \<open>
  \<open>ToString\<close> of an integer-valued number: its decimal digits, with a leading minus sign
  below zero. (JavaScript switches to exponent notation from \<open>1e21\<close> on, far outside
  the MIDI range.)
\<close>

definition show_int :: "int \<Rightarrow> string" where
  "show_int i = (if i < 0 then CHR ''-'' # show_nat (nat (- i)) else show_nat (nat i))"

text \<open>The property key under which a value indexes an object: \<open>ToString\<close> of the value.\<close>

fun ToString :: "jsval \<Rightarrow> string" where
  "ToString (Str s) = s"
| "ToString (Num n) = show_int n"
| "ToString NaN = ''NaN''"
| "ToString Undefined = ''undefined''"

definition isDigit :: "char \<Rightarrow> bool" where
  "isDigit c = (c \<in> set ''0123456789'')"

definition isSpace :: "char \<Rightarrow> bool" where
  "isSpace c = (c \<in> {CHR '' '', CHR 0x09, CHR 0x0A, CHR 0x0B, CHR 0x0C, CHR 0x0D})"

text \<open>
  \<open>isNaN(parseFloat(x))\<close>. \<open>parseFloat\<close> converts its argument to a string, skips
  leading white space and reads the longest prefix that is a decimal literal: an optional
  sign, then \<open>Infinity\<close>, or digits with an optional fraction and exponent, or a dot
  followed by digits. The result is \<open>NaN\<close> exactly when no such prefix exists, that
  is when what follows the optional sign starts neither with a digit, nor with a dot and a
  digit, nor with \<open>Infinity\<close>. Strings are ASCII here.
\<close>

fun literalStart :: "string \<Rightarrow> bool" where
  "literalStart [] = False"
| "literalStart (c # cs) =
     (if isDigit c then True
      else if c = CHR ''.'' then (case cs of [] \<Rightarrow> False | d # _ \<Rightarrow> isDigit d)
      else take 8 (c # cs) = ''Infinity'')"

fun signedLiteralStart :: "string \<Rightarrow> bool" where
  "signedLiteralStart [] = False"
| "signedLiteralStart (c # cs) =
     (if c = CHR ''+'' \<or> c = CHR ''-'' then literalStart cs else literalStart (c # cs))"

definition parseFloat_isNaN :: "jsval \<Rightarrow> bool" where
  "parseFloat_isNaN x = (\<not> signedLiteralStart (dropWhile isSpace (ToString x)))"

section \<open>Tone.isNote\<close>

text \<open>
  \<open>Tone.isNote(arg)\<close> is \<open>Tone.isString(arg)\<close> and a match of
  \<open>/^([a-g]{1}(?:b|#|x|bb)?)(-?[0-9]+)/i\<close>: a letter a to g, an optional accidental,
  an optional minus sign and at least one digit, in either case, anchored at the start of
  the string only.
\<close>

definition isPitchLetter :: "char \<Rightarrow> bool" where
  "isPitchLetter c = (c \<in> set ''abcdefgABCDEFG'')"

fun octaveStart :: "string \<Rightarrow> bool" where
  "octaveStart [] = False"
| "octaveStart (c # cs) =
     (if c = CHR ''-'' then (case cs of [] \<Rightarrow> False | d # _ \<Rightarrow> isDigit d) else isDigit c)"

definition isFlat :: "char \<Rightarrow> bool" where
  "isFlat c = (c = CHR ''b'' \<or> c = CHR ''B'')"

definition isSingleAccidental :: "char \<Rightarrow> bool" where
  "isSingleAccidental c = (isFlat c \<or> c = CHR ''#'' \<or> c = CHR ''x'' \<or> c = CHR ''X'')"

text \<open>The rest of the string after the pitch group, when the expression matches.\<close>

fun afterPitch :: "string \<Rightarrow> string option" where
  "afterPitch [] = None"
| "afterPitch (l # r) =
     (if \<not> isPitchLetter l then None
      else (case r of
              a # r' \<Rightarrow>
                if isSingleAccidental a \<and> octaveStart r' then Some r'
                else (case r' of
                        b # r'' \<Rightarrow>
                          if isFlat a \<and> isFlat b \<and> octaveStart r'' then Some r''
                          else if octaveStart r then Some r else None
                      | [] \<Rightarrow> if octaveStart r then Some r else None)
            | [] \<Rightarrow> None))"

fun isNote :: "jsval \<Rightarrow> bool" where
  "isNote (Str s) = (afterPitch s \<noteq> None)"
| "isNote _ = False"

section \<open>The buffer store\<close>

text \<open>
  A \<open>Tone.Buffer\<close>: whether its audio has finished loading, and its duration in
  seconds. An unset buffer is one that is not loaded.
\<close>

record tone_buffer =
  loaded :: bool
  duration :: real

text \<open>
  The \<open>Tone.Buffers\<close> object held in \<open>this._buffers\<close>: a JavaScript object
  from property keys (strings) to buffers.
\<close>

type_synonym buffers = "string \<rightharpoonup> tone_buffer"

text \<open>
  Modelled from the spec: \<open>Tone.Buffers.prototype.has\<close> (Tone/core/Buffers is not among
  the sources): true iff an entry exists for exactly that key. A number indexes the
  object through \<open>ToString\<close>.
\<close>

definition Buffers_has :: "buffers \<Rightarrow> jsval \<Rightarrow> bool" where
  "Buffers_has b k = (b (ToString k) \<noteq> None)"

section \<open>MultiSampler._findClosest\<close>

definition MAX_INTERVAL :: int where
  "MAX_INTERVAL = 24"

text \<open>The \<open>while\<close> loop of \<open>_findClosest\<close>, entered with the current \<open>interval\<close>.\<close>

function findClosest_loop :: "buffers \<Rightarrow> int \<Rightarrow> int \<Rightarrow> int option" where
  "findClosest_loop b midi interval =
     (if interval < MAX_INTERVAL then
        (if Buffers_has b (Num (midi + interval)) then Some (- interval)
         else if Buffers_has b (Num (midi - interval)) then Some interval
         else findClosest_loop b midi (interval + 1))
      else None)"
  by pat_completeness auto
termination
  by (relation "measure (\<lambda>(b, midi, interval). nat (MAX_INTERVAL - interval))") auto

declare findClosest_loop.simps [simp del]

definition findClosest :: "buffers \<Rightarrow> int \<Rightarrow> int option" where
  "findClosest b midi = findClosest_loop b midi 0"

section \<open>Tone.BufferSource: the Voice\<close>

datatype error =
    InvalidKeyError      \<comment> \<open>the key of a sample is neither pitch notation nor a number\<close>
  | AlreadyStartedError  \<comment> \<open>"Tone.BufferSource can only be started once."\<close>
  | BufferNotReadyError  \<comment> \<open>"Tone.BufferSource: buffer is either not set or not loaded."\<close>
  | NoBufferError        \<comment> \<open>\<open>Tone.Buffers.get\<close> on a key that is not stored\<close>

text \<open>\<open>Tone.State\<close>.\<close>

datatype play_state = Started | Stopped | Paused

text \<open>
  The audio context as the Voice reads it: the clock (\<open>this.now()\<close>) and the length of
  one sample (\<open>this.sampleTime\<close>).
\<close>

record audio_clock =
  now :: real
  sampleTime :: real

text \<open>The calls made on the gain parameter of \<open>this._gainNode\<close>, in the order made.\<close>

datatype automation =
    SetValueAtTime real real
  | LinearRampToValueAtTime real real
  | CancelScheduledValues real

text \<open>
  The fields of a \<open>Tone.BufferSource\<close>. \<open>gainEvents\<close> is the automation scheduled
  on its gain node, \<open>onendedTimeout\<close> the delay of the one pending completion timer
  (\<open>None\<close> for the initial handle \<open>-1\<close>), and \<open>sourceStart\<close> the arguments of
  the call of \<open>this._source.start(time, offset)\<close> once made (the offset is \<open>None\<close>
  where JavaScript computes \<open>NaN\<close>). \<open>loop\<close>, \<open>loopStart\<close> and \<open>loopEnd\<close>
  are the properties of the native source, which the getters and setters of the Voice read
  and write.
\<close>

record voice =
  buffer :: tone_buffer
  playbackRate :: real
  fadeIn :: real
  fadeOut :: real
  gain :: real
  startTime :: real
  stopTime :: real
  loop :: bool
  loopStart :: real
  loopEnd :: real
  gainEvents :: "automation list"
  onendedTimeout :: "real option"
  sourceStart :: "(real \<times> real option) option"

text \<open>The options object of the constructor, after \<open>Tone.defaults\<close>.\<close>

record source_options =
  opt_buffer :: "tone_buffer option"
  opt_loop :: bool
  opt_loopStart :: real
  opt_loopEnd :: real
  opt_fadeIn :: real
  opt_fadeOut :: real
  opt_playbackRate :: real

definition BufferSource_defaults :: source_options where
  "BufferSource_defaults =
     \<lparr>opt_buffer = None, opt_loop = False, opt_loopStart = 0, opt_loopEnd = 0,
      opt_fadeIn = 0, opt_fadeOut = 0, opt_playbackRate = 1\<rparr>"

definition unset_buffer :: tone_buffer where
  "unset_buffer = \<lparr>loaded = False, duration = 0\<rparr>"

text \<open>\<open>new Tone.BufferSource(options)\<close>.\<close>

definition BufferSource :: "source_options \<Rightarrow> voice" where
  "BufferSource options =
     \<lparr>buffer = (case opt_buffer options of None \<Rightarrow> unset_buffer | Some b \<Rightarrow> b),
      playbackRate = opt_playbackRate options,
      fadeIn = opt_fadeIn options,
      fadeOut = opt_fadeOut options,
      gain = 1,
      startTime = - 1,
      stopTime = - 1,
      loop = opt_loop options,
      loopStart = opt_loopStart options,
      loopEnd = opt_loopEnd options,
      gainEvents = [],
      onendedTimeout = None,
      sourceStart = None\<rparr>"

text \<open>The \<open>state\<close> getter, read when the clock shows \<open>now ctx\<close>.\<close>

definition state :: "audio_clock \<Rightarrow> voice \<Rightarrow> play_state" where
  "state ctx v =
     (if startTime v \<noteq> - 1 \<and> now ctx \<ge> startTime v \<and> now ctx < stopTime v
      then Started else Stopped)"

text \<open>\<open>Tone.defaultArg\<close> on a value that is not an object literal.\<close>

definition defaultArg :: "'a option \<Rightarrow> 'a \<Rightarrow> 'a" where
  "defaultArg given fallback = (case given of None \<Rightarrow> fallback | Some x \<Rightarrow> x)"

text \<open>
  Modelled from the spec: \<open>Tone.prototype.toSeconds\<close> (Tone/type/Type is not among the
  sources), on the times the model has. The spec gives every time in seconds, so a number
  is returned as it is; a time that is not given is the current time of the clock
  (\<open>[startTime=now]\<close> in the documentation of \<open>start\<close>).
\<close>

definition toSeconds :: "audio_clock \<Rightarrow> real option \<Rightarrow> real" where
  "toSeconds ctx t = (case t of None \<Rightarrow> now ctx | Some x \<Rightarrow> x)"

text \<open>
  \<open>Tone.BufferSource.prototype.stop(time, fadeOutTime)\<close>. The exception is raised
  before any field is written.
\<close>

definition stop :: "audio_clock \<Rightarrow> voice \<Rightarrow> real option \<Rightarrow> real option \<Rightarrow> error + voice" where
  "stop ctx v time fadeOutTime =
     (if loaded (buffer v) then
        (let time1 = toSeconds ctx time;
             fadeOutTime1 = (case fadeOutTime of None \<Rightarrow> fadeOut v | Some f \<Rightarrow> f);
             time2 = max (startTime v) time1
         in Inr (v\<lparr>stopTime := time1 + fadeOutTime1,
                   gainEvents := gainEvents v
                     @ [CancelScheduledValues (startTime v + sampleTime ctx)]
                     @ (if fadeOutTime1 > 0
                        then [SetValueAtTime (gain v) time2,
                              LinearRampToValueAtTime 0 (time2 + fadeOutTime1)]
                        else [SetValueAtTime 0 time2]),
                   onendedTimeout := Some (time1 + fadeOutTime1 - now ctx)\<rparr>))
      else Inl BufferNotReadyError)"

text \<open>
  The duration that \<open>start\<close> resolves (\<open>computedDur\<close>, with the clip of the branch
  that is not looping): the given duration or else what is left of the buffer, never
  below zero, and not beyond the end of the buffer unless the Voice loops.
\<close>

definition computedDur :: "voice \<Rightarrow> real \<Rightarrow> real option \<Rightarrow> real" where
  "computedDur v offset dur =
     (let d = max (defaultArg dur (duration (buffer v) - offset)) 0
      in if \<not> loop v then min d (duration (buffer v) - offset) else d)"

text \<open>
  The first part of \<open>start\<close>: the target gain, the fade-in envelope and the recorded
  start time.
\<close>

definition start_envelope :: "voice \<Rightarrow> real \<Rightarrow> real \<Rightarrow> real \<Rightarrow> voice" where
  "start_envelope v time gain1 fadeInTime =
     v\<lparr>gain := gain1,
       gainEvents := gainEvents v
         @ (if fadeInTime > 0
            then [SetValueAtTime 0 time, LinearRampToValueAtTime gain1 (time + fadeInTime)]
            else [SetValueAtTime gain1 time]),
       startTime := time + fadeInTime\<rparr>"

text \<open>
  The remainder operator \<open>%\<close> on numbers: the sign follows the dividend, and a zero
  divisor gives \<open>NaN\<close> (\<open>None\<close>).
\<close>

definition js_rem :: "real \<Rightarrow> real \<Rightarrow> real option" where
  "js_rem x y =
     (if y = 0 then None
      else Some (x - y * (if x / y < 0 then of_int \<lceil>x / y\<rceil> else of_int \<lfloor>x / y\<rfloor>)))"

text \<open>
  The last part of \<open>start\<close>: the offset is moved back into the loop when the Voice
  loops, the loop end of the native source is set (to the length of the buffer when it was
  0), and the native source is started.
\<close>

definition start_source :: "voice \<Rightarrow> real \<Rightarrow> real \<Rightarrow> voice" where
  "start_source v time offset =
     (let loopEnd1 = (if loopEnd v \<noteq> 0 then loopEnd v else duration (buffer v));
          offset1 =
            (if loop v \<and> offset > loopEnd1
             then (case js_rem (offset - loopStart v) (loopEnd1 - loopStart v) of
                     None \<Rightarrow> None
                   | Some r \<Rightarrow> Some (r + loopStart v))
             else Some offset)
      in v\<lparr>loopEnd := loopEnd1, sourceStart := Some (time, offset1)\<rparr>)"

text \<open>
  The offset that \<open>start\<close> resolves: the given one, or else the start of the loop when
  the Voice loops, and 0 when it does not.
\<close>

definition start_offset :: "voice \<Rightarrow> real option \<Rightarrow> real" where
  "start_offset v offset =
     (if loop v then defaultArg offset (loopStart v) else defaultArg offset 0)"

text \<open>The fade-in of \<open>start\<close>: the override when given, or else the configured fade-in.\<close>

definition start_fadeIn :: "voice \<Rightarrow> real option \<Rightarrow> real" where
  "start_fadeIn v fadeInTime = (case fadeInTime of None \<Rightarrow> fadeIn v | Some f \<Rightarrow> f)"

text \<open>
  \<open>Tone.BufferSource.prototype.start(time, offset, duration, gain, fadeInTime)\<close>.
  Both exceptions are raised before any field is written.
\<close>

definition start ::
  "audio_clock \<Rightarrow> voice \<Rightarrow> real option \<Rightarrow> real option \<Rightarrow> real option \<Rightarrow> real option \<Rightarrow> real option
     \<Rightarrow> error + voice" where
  "start ctx v time offset dur gain0 fadeInTime =
     (if startTime v \<noteq> - 1 then Inl AlreadyStartedError
      else if loaded (buffer v) then
        (let time1 = toSeconds ctx time;
             offset1 = start_offset v offset;
             gain1 = defaultArg gain0 1;
             fadeInTime1 = start_fadeIn v fadeInTime;
             v1 = start_envelope v time1 gain1 fadeInTime1
         in case (if \<not> loop v \<or> (loop v \<and> dur \<noteq> None)
                  then stop ctx v1 (Some (time1 + computedDur v offset1 dur + fadeInTime1))
                         (Some fadeInTime1)
                  else Inr v1) of
              Inl e \<Rightarrow> Inl e
            | Inr v2 \<Rightarrow> Inr (start_source v2 time1 offset1))
      else Inl BufferNotReadyError)"

text \<open>
  The calls a caller makes on one Voice, each with the clock at the time of the call, and
  the Voice after a call. An exception leaves the Voice as it was.
\<close>

datatype voice_call =
    Start audio_clock "real option" "real option" "real option" "real option" "real option"
  | Stop audio_clock "real option" "real option"

fun call_voice :: "voice \<Rightarrow> voice_call \<Rightarrow> voice" where
  "call_voice v (Start ctx time offset dur gain0 fadeInTime) =
     (case start ctx v time offset dur gain0 fadeInTime of Inl e \<Rightarrow> v | Inr v' \<Rightarrow> v')"
| "call_voice v (Stop ctx time fadeOutTime) =
     (case stop ctx v time fadeOutTime of Inl e \<Rightarrow> v | Inr v' \<Rightarrow> v')"

section \<open>Tone.MultiSampler\<close>

text \<open>What a sample is given as: a url still to be loaded, or a buffer.\<close>

datatype sample_source = Url string | Buffer tone_buffer

text \<open>
  Modelled from the spec: the buffer that \<open>Tone.Buffers\<close> (Tone/core/Buffers is not
  among the sources) holds for a source when \<open>add\<close> returns. A url starts a load that
  has not finished by then; a buffer is stored as it is.
\<close>

definition stored :: "sample_source \<Rightarrow> tone_buffer" where
  "stored src = (case src of Url u \<Rightarrow> unset_buffer | Buffer buf \<Rightarrow> buf)"

text \<open>
  Modelled from the spec: \<open>Tone.Buffers.prototype.add\<close> (Tone/core/Buffers is not among
  the sources). The entry is stored under the property key of the name; an existing key is
  overwritten.
\<close>

definition Buffers_add :: "buffers \<Rightarrow> jsval \<Rightarrow> sample_source \<Rightarrow> buffers" where
  "Buffers_add b name src = b(ToString name \<mapsto> stored src)"

text \<open>
  Modelled from the spec: \<open>Tone.Buffers.prototype.get\<close> (Tone/core/Buffers is not among
  the sources): the buffer of an exact key; a missing key is an error.
\<close>

definition Buffers_get :: "buffers \<Rightarrow> jsval \<Rightarrow> error + tone_buffer" where
  "Buffers_get b k = (case b (ToString k) of None \<Rightarrow> Inl NoBufferError | Some buf \<Rightarrow> Inr buf)"

text \<open>An entry of \<open>this._activeSources[midi]\<close>.\<close>

record active_source =
  entry_note :: int
  entry_source :: voice

record sampler =
  buffers :: buffers
  activeSources :: "int \<rightharpoonup> active_source list"
  attack :: real
  release :: real

text \<open>\<open>Tone.intervalToFrequencyRatio\<close>: \<open>Math.pow(2, interval / 12)\<close>, over the reals.\<close>

definition intervalToFrequencyRatio :: "int \<Rightarrow> real" where
  "intervalToFrequencyRatio interval = 2 powr (real_of_int interval / 12)"

text \<open>
  \<open>Tone.Frequency(note).toMidi()\<close> is not among the sources; the operations of the
  sampler take it as the parameter \<open>toMidi\<close>.

  The key of one sample, as the constructor and \<open>add\<close> normalise it: the MIDI number of
  a note name, the key itself when \<open>parseFloat\<close> reads a number from it, and an
  exception otherwise.
\<close>

definition normalizeKey :: "(jsval \<Rightarrow> int) \<Rightarrow> jsval \<Rightarrow> error + jsval" where
  "normalizeKey toMidi note0 =
     (if isNote note0 then Inr (Num (toMidi note0))
      else if \<not> parseFloat_isNaN note0 then Inr note0
      else Inl InvalidKeyError)"

text \<open>\<open>Tone.MultiSampler.prototype.add(note, url)\<close>.\<close>

definition add :: "(jsval \<Rightarrow> int) \<Rightarrow> sampler \<Rightarrow> jsval \<Rightarrow> sample_source \<Rightarrow> error + sampler" where
  "add toMidi s note0 url =
     (case normalizeKey toMidi note0 of
        Inl e \<Rightarrow> Inl e
      | Inr k \<Rightarrow> Inr (s\<lparr>buffers := Buffers_add (buffers s) k url\<rparr>))"

text \<open>
  The loop of the constructor over the keys of \<open>urls\<close>, which fills \<open>urlMap\<close>. The
  properties of an object are given in the order of \<open>for ... in\<close>; their names are
  strings.
\<close>

fun urlMap_loop ::
  "(jsval \<Rightarrow> int) \<Rightarrow> (string \<times> sample_source) list \<Rightarrow> (string \<times> sample_source) list
     \<Rightarrow> error + (string \<times> sample_source) list" where
  "urlMap_loop toMidi [] urlMap = Inr urlMap"
| "urlMap_loop toMidi ((note0, url) # urls) urlMap =
     (case normalizeKey toMidi (Str note0) of
        Inl e \<Rightarrow> Inl e
      | Inr k \<Rightarrow> urlMap_loop toMidi urls (urlMap @ [(ToString k, url)]))"

text \<open>
  Modelled from the spec: \<open>new Tone.Buffers(urlMap)\<close> (Tone/core/Buffers is not among
  the sources) adds every entry of the mapping it is given.
\<close>

fun Buffers :: "buffers \<Rightarrow> (string \<times> sample_source) list \<Rightarrow> buffers" where
  "Buffers b [] = b"
| "Buffers b ((k, url) # rest) = Buffers (Buffers_add b (Str k) url) rest"

text \<open>\<open>new Tone.MultiSampler(urls, options)\<close>, with the options \<open>attack\<close> and \<open>release\<close>.\<close>

definition MultiSampler ::
  "(jsval \<Rightarrow> int) \<Rightarrow> (string \<times> sample_source) list \<Rightarrow> real \<Rightarrow> real \<Rightarrow> error + sampler" where
  "MultiSampler toMidi urls attack0 release0 =
     (case urlMap_loop toMidi urls [] of
        Inl e \<Rightarrow> Inl e
      | Inr urlMap \<Rightarrow>
          Inr \<lparr>buffers = Buffers Map.empty urlMap, activeSources = Map.empty,
               attack = attack0, release = release0\<rparr>)"

text \<open>The defaults of the options: \<open>attack : 0\<close>, \<open>release : 0.1\<close>.\<close>

definition MultiSampler_default :: "(jsval \<Rightarrow> int) \<Rightarrow> (string \<times> sample_source) list \<Rightarrow> error + sampler" where
  "MultiSampler_default toMidi urls = MultiSampler toMidi urls 0 (1 / 10)"

text \<open>
  \<open>Tone.MultiSampler.prototype.triggerAttack(note, time, velocity)\<close>. An exception of
  \<open>start\<close> leaves the sampler as it was: the queue is written after \<open>start\<close> returns.
\<close>

definition triggerAttack ::
  "(jsval \<Rightarrow> int) \<Rightarrow> audio_clock \<Rightarrow> sampler \<Rightarrow> jsval \<Rightarrow> real option \<Rightarrow> real option \<Rightarrow> error + sampler" where
  "triggerAttack toMidi ctx s note0 time velocity =
     (let midi = toMidi note0 in
      case findClosest (buffers s) midi of
        None \<Rightarrow> Inr s
      | Some difference \<Rightarrow>
          (let closestNote = midi - difference in
           case Buffers_get (buffers s) (Num closestNote) of
             Inl e \<Rightarrow> Inl e
           | Inr buf \<Rightarrow>
               (let source0 = BufferSource (BufferSource_defaults
                      \<lparr>opt_buffer := Some buf,
                       opt_playbackRate := intervalToFrequencyRatio difference,
                       opt_fadeIn := attack s,
                       opt_fadeOut := release s\<rparr>)
                in case start ctx source0 time (Some 0) (Some (duration buf)) velocity None of
                     Inl e \<Rightarrow> Inl e
                   | Inr source1 \<Rightarrow>
                       Inr (s\<lparr>activeSources := (activeSources s)
                              (midi \<mapsto> (case activeSources s midi of
                                           None \<Rightarrow> [] | Some q \<Rightarrow> q)
                                         @ [\<lparr>entry_note = midi, entry_source = source1\<rparr>])\<rparr>))))"

text \<open>The options that \<open>triggerAttack\<close> hands to the constructor of the Voice, by name.\<close>

definition attack_options :: "sampler \<Rightarrow> tone_buffer \<Rightarrow> int \<Rightarrow> source_options" where
  "attack_options s buf d =
     BufferSource_defaults
       \<lparr>opt_buffer := Some buf,
        opt_playbackRate := intervalToFrequencyRatio d,
        opt_fadeIn := attack s,
        opt_fadeOut := release s\<rparr>"

text \<open>
  \<open>Tone.MultiSampler.prototype.triggerRelease(note, time)\<close>. The oldest entry is taken
  off the queue before its Voice is stopped. The Voice leaves the sampler with that; the
  first component of the result is what \<open>source.stop(time, this.release)\<close> made of it
  (\<open>None\<close> when nothing was released), the second the sampler after the call.
\<close>

definition triggerRelease ::
  "(jsval \<Rightarrow> int) \<Rightarrow> audio_clock \<Rightarrow> sampler \<Rightarrow> jsval \<Rightarrow> real option
     \<Rightarrow> (error + voice) option \<times> sampler" where
  "triggerRelease toMidi ctx s note0 time =
     (let midi = toMidi note0 in
      case activeSources s midi of
        None \<Rightarrow> (None, s)
      | Some [] \<Rightarrow> (None, s)
      | Some (e # es) \<Rightarrow>
          (Some (stop ctx (entry_source e) time (Some (release s))),
           s\<lparr>activeSources := (activeSources s)(midi \<mapsto> es)\<rparr>))"

text \<open>
  Releasing the same note once for each of the given calls, one after the other; a call is
  the clock when it is made and its \<open>time\<close> argument.
\<close>

fun releases ::
  "(jsval \<Rightarrow> int) \<Rightarrow> sampler \<Rightarrow> jsval \<Rightarrow> (audio_clock \<times> real option) list
     \<Rightarrow> (error + voice) option list \<times> sampler" where
  "releases toMidi s note0 [] = ([], s)"
| "releases toMidi s note0 ((ctx, t) # calls) =
     (let (r, s1) = triggerRelease toMidi ctx s note0 t;
          (rs, s2) = releases toMidi s1 note0 calls
      in (r # rs, s2))"

section \<open>Scientific pitch notation\<close>

text \<open>
  Modelled from the spec: the pitch codec \<open>Tone.Frequency(note).toMidi()\<close> (Tone/type is
  not among the sources) on pitch notation: A4 is 69, with 12 units to the octave. The
  letter gives the step within the octave, a flat lowers it by one and a sharp raises it by
  one (\<open>x\<close> and \<open>bb\<close> by two), and octave \<open>-1\<close> starts at 0.
\<close>

definition letterIndex :: "char \<Rightarrow> int" where
  "letterIndex c =
     (if c \<in> set ''cC'' then 0 else if c \<in> set ''dD'' then 2 else if c \<in> set ''eE'' then 4
      else if c \<in> set ''fF'' then 5 else if c \<in> set ''gG'' then 7
      else if c \<in> set ''aA'' then 9 else 11)"

definition accidentalShift :: "string \<Rightarrow> int" where
  "accidentalShift a =
     (if a = [] then 0
      else if length a = 2 then - 2
      else if isFlat (hd a) then - 1
      else if hd a = CHR ''#'' then 1 else 2)"

definition digit_value :: "char \<Rightarrow> int" where
  "digit_value c = int (of_char c) - 48"

text \<open>\<open>parseInt\<close> of the octave group: an optional minus sign and the digits that follow.\<close>

definition parseOctave :: "string \<Rightarrow> int" where
  "parseOctave r =
     (let neg = (r \<noteq> [] \<and> hd r = CHR ''-'');
          ds = takeWhile isDigit (if neg then tl r else r);
          n = foldl (\<lambda>acc c. 10 * acc + digit_value c) 0 ds
      in if neg then - n else n)"

definition noteToMidi :: "string \<Rightarrow> int" where
  "noteToMidi s =
     (case afterPitch s of
        None \<Rightarrow> 0
      | Some r \<Rightarrow>
          letterIndex (hd s)
          + accidentalShift (take (length s - 1 - length r) (tl s))
          + (parseOctave r + 1) * 12)"

text \<open>
  The codec on the values a note is given as: pitch notation as above. (On any other value
  the spec gives no result; the model has 0 there, and no theorem reads it.)
\<close>

fun Frequency_toMidi :: "jsval \<Rightarrow> int" where
  "Frequency_toMidi (Str s) = noteToMidi s"
| "Frequency_toMidi _ = 0"

section \<open>The scenario of the tests\<close>

text \<open>A loaded buffer of two seconds, a bank that holds it at A4 (key 69), and the sampler
  built on that bank with the default options.\<close>

definition bufferX :: tone_buffer where
  "bufferX = \<lparr>loaded = True, duration = 2\<rparr>"

definition bank_A4 :: buffers where
  "bank_A4 = [''69'' \<mapsto> bufferX]"

definition sampler_A4 :: sampler where
  "sampler_A4 = \<lparr>buffers = bank_A4, activeSources = Map.empty, attack = 0, release = 1 / 10\<rparr>"

text \<open>A bank with samples three semitones above and three below A4, and none nearer.\<close>

definition bank_tie :: buffers where
  "bank_tie = [''72'' \<mapsto> bufferX, ''66'' \<mapsto> bufferX]"

text \<open>A clock that reads one second, at 44100 samples per second.\<close>

definition clock1 :: audio_clock where
  "clock1 = \<lparr>now = 1, sampleTime = 1 / 44100\<rparr>"

text \<open>Two Voices on the loaded buffer, as constructed: one that plays once, one that loops.\<close>

definition voiceX :: voice where
  "voiceX = BufferSource (BufferSource_defaults\<lparr>opt_buffer := Some bufferX\<rparr>)"

definition loopingX :: voice where
  "loopingX = BufferSource (BufferSource_defaults\<lparr>opt_buffer := Some bufferX, opt_loop := True\<rparr>)"

text \<open>
  The Voice that \<open>triggerAttack\<close> starts for A4 on that sampler at time \<open>t\<close>, and the
  sampler after one such attack (at time 1) and after a second one (at time 2).
\<close>

definition voice_at :: "real \<Rightarrow> voice" where
  "voice_at t = projr (start clock1 (BufferSource (attack_options sampler_A4 bufferX 0))
                  (Some t) (Some 0) (Some (duration bufferX)) None None)"

definition sampler_A4_once :: sampler where
  "sampler_A4_once =
     sampler_A4\<lparr>activeSources := [69 \<mapsto> [\<lparr>entry_note = 69, entry_source = voice_at 1\<rparr>]]\<rparr>"

definition sampler_A4_twice :: sampler where
  "sampler_A4_twice =
     sampler_A4\<lparr>activeSources := [69 \<mapsto> [\<lparr>entry_note = 69, entry_source = voice_at 1\<rparr>,
                                          \<lparr>entry_note = 69, entry_source = voice_at 2\<rparr>]]\<rparr>"

section \<open>Nearest-match search: the tie-break\<close>

lemma findClosest_loop_above:
  assumes "Buffers_has b (Num (midi + i))" and "i < MAX_INTERVAL" and "k \<le> i"
    and "\<And>j. k \<le> j \<Longrightarrow> j < i \<Longrightarrow>
           \<not> Buffers_has b (Num (midi + j)) \<and> \<not> Buffers_has b (Num (midi - j))"
  shows "findClosest_loop b midi k = Some (- i)"
  using assms
proof (induction "nat (i - k)" arbitrary: k)
  case 0
  then have "k = i" by simp
  with "0.prems" show ?case
    by (simp add: findClosest_loop.simps [of b midi i])
next
  case (Suc n)
  then have lt: "k < i" by linarith
  from Suc.prems(4) [of k] lt
  have miss: "\<not> Buffers_has b (Num (midi + k))" "\<not> Buffers_has b (Num (midi - k))"
    by simp_all
  have "findClosest_loop b midi (k + 1) = Some (- i)"
  proof (rule Suc.hyps(1))
    show "n = nat (i - (k + 1))" using Suc.hyps(2) by linarith
    show "Buffers_has b (Num (midi + i))" by (rule Suc.prems(1))
    show "i < MAX_INTERVAL" by (rule Suc.prems(2))
    show "k + 1 \<le> i" using lt by simp
    show "\<And>j. k + 1 \<le> j \<Longrightarrow> j < i \<Longrightarrow>
           \<not> Buffers_has b (Num (midi + j)) \<and> \<not> Buffers_has b (Num (midi - j))"
      using Suc.prems(4) by simp
  qed
  moreover have "k < MAX_INTERVAL" using lt Suc.prems(2) by linarith
  ultimately show ?case
    using miss by (simp add: findClosest_loop.simps [of b midi k])
qed

text \<open>
  C1. For every MIDI integer \<open>m\<close> and every interval \<open>i\<close> with \<open>0 < i < 24\<close>: if
  the bank holds samples at both \<open>m + i\<close> and \<open>m - i\<close> and none at a distance smaller
  than \<open>i\<close> from \<open>m\<close>, the search returns the signed distance \<open>- i\<close>: the sample
  above the target wins the tie.
\<close>

theorem findClosest_prefers_above:
  assumes "0 < i" and "i < 24"
    and "Buffers_has b (Num (m + i))" and "Buffers_has b (Num (m - i))"
    and "\<forall>j. \<bar>j\<bar> < i \<longrightarrow> \<not> Buffers_has b (Num (m + j))"
  shows "findClosest b m = Some (- i)"
proof -
  have "findClosest_loop b m 0 = Some (- i)"
  proof (rule findClosest_loop_above)
    show "Buffers_has b (Num (m + i))" by (rule assms(3))
    show "i < MAX_INTERVAL" using assms(2) by (simp add: MAX_INTERVAL_def)
    show "0 \<le> i" using assms(1) by simp
    fix j :: int
    assume j: "0 \<le> j" "j < i"
    then have "\<bar>j\<bar> < i" "\<bar>- j\<bar> < i" by simp_all
    with assms(5) have "\<not> Buffers_has b (Num (m + j))" "\<not> Buffers_has b (Num (m + (- j)))"
      by blast+
    then show "\<not> Buffers_has b (Num (m + j)) \<and> \<not> Buffers_has b (Num (m - j))"
      by simp
  qed
  then show ?thesis by (simp add: findClosest_def)
qed

theorem findClosest_prefers_above_witness:
  "Buffers_has bank_tie (Num (69 + 3)) \<and> Buffers_has bank_tie (Num (69 - 3))
   \<and> \<not> (\<exists>j. \<bar>j\<bar> < 3 \<and> Buffers_has bank_tie (Num (69 + j)))
   \<and> findClosest bank_tie 69 = Some (- 3)"
proof -
  have above: "Buffers_has bank_tie (Num (69 + 3))" by code_simp
  have below: "Buffers_has bank_tie (Num (69 - 3))" by code_simp
  have near: "\<not> Buffers_has bank_tie (Num 67)" "\<not> Buffers_has bank_tie (Num 68)"
    "\<not> Buffers_has bank_tie (Num 69)" "\<not> Buffers_has bank_tie (Num 70)"
    "\<not> Buffers_has bank_tie (Num 71)"
    by code_simp+
  have none: "\<forall>j. \<bar>j\<bar> < 3 \<longrightarrow> \<not> Buffers_has bank_tie (Num (69 + j))"
  proof (intro allI impI)
    fix j :: int
    assume "\<bar>j\<bar> < 3"
    then have "j = - 2 \<or> j = - 1 \<or> j = 0 \<or> j = 1 \<or> j = 2" by arith
    then show "\<not> Buffers_has bank_tie (Num (69 + j))"
      using near by (elim disjE) simp_all
  qed
  have "findClosest bank_tie 69 = Some (- 3)"
    using findClosest_prefers_above [of 3 bank_tie 69] above below none by simp
  with above below none show ?thesis by blast
qed

section \<open>Nearest-match search: the radius\<close>

lemma findClosest_loop_Some:
  "findClosest_loop b m k = Some d \<Longrightarrow> 0 \<le> k \<Longrightarrow>
     k \<le> \<bar>d\<bar> \<and> \<bar>d\<bar> < MAX_INTERVAL \<and> Buffers_has b (Num (m - d))"
proof (induction b m k rule: findClosest_loop.induct)
  case (1 b midi interval)
  show ?case
  proof (cases "interval < MAX_INTERVAL")
    case False
    with "1.prems" show ?thesis by (simp add: findClosest_loop.simps [of b midi interval])
  next
    case lt: True
    show ?thesis
    proof (cases "Buffers_has b (Num (midi + interval))")
      case True
      with lt "1.prems" show ?thesis
        by (auto simp: findClosest_loop.simps [of b midi interval])
    next
      case above: False
      show ?thesis
      proof (cases "Buffers_has b (Num (midi - interval))")
        case True
        with lt above "1.prems" show ?thesis
          by (auto simp: findClosest_loop.simps [of b midi interval])
      next
        case below: False
        with lt above "1.prems" have "findClosest_loop b midi (interval + 1) = Some d"
          by (simp add: findClosest_loop.simps [of b midi interval])
        with "1.IH" [OF lt above below] "1.prems" show ?thesis by simp
      qed
    qed
  qed
qed

lemma findClosest_loop_None:
  "(\<And>j. k \<le> j \<Longrightarrow> j < MAX_INTERVAL \<Longrightarrow>
       \<not> Buffers_has b (Num (m + j)) \<and> \<not> Buffers_has b (Num (m - j)))
   \<Longrightarrow> findClosest_loop b m k = None"
proof (induction b m k rule: findClosest_loop.induct)
  case (1 b midi interval)
  show ?case
  proof (cases "interval < MAX_INTERVAL")
    case False
    then show ?thesis by (simp add: findClosest_loop.simps [of b midi interval])
  next
    case lt: True
    from "1.prems" [of interval] lt
    have miss: "\<not> Buffers_has b (Num (midi + interval))" "\<not> Buffers_has b (Num (midi - interval))"
      by simp_all
    have "findClosest_loop b midi (interval + 1) = None"
      using "1.IH" [OF lt miss] "1.prems" by simp
    with lt miss show ?thesis by (simp add: findClosest_loop.simps [of b midi interval])
  qed
qed

lemma findClosest_Some:
  "findClosest b m = Some d \<Longrightarrow> \<bar>d\<bar> \<le> 23 \<and> Buffers_has b (Num (m - d))"
  using findClosest_loop_Some [of b m 0 d] by (simp add: findClosest_def MAX_INTERVAL_def)

lemma findClosest_None:
  assumes "\<forall>j. \<bar>j\<bar> \<le> 23 \<longrightarrow> \<not> Buffers_has b (Num (m + j))"
  shows "findClosest b m = None"
proof -
  have "findClosest_loop b m 0 = None"
  proof (rule findClosest_loop_None)
    fix j :: int
    assume "0 \<le> j" "j < MAX_INTERVAL"
    then have "\<bar>j\<bar> \<le> 23" "\<bar>- j\<bar> \<le> 23" by (simp_all add: MAX_INTERVAL_def)
    with assms have "\<not> Buffers_has b (Num (m + j))" "\<not> Buffers_has b (Num (m + (- j)))"
      by blast+
    then show "\<not> Buffers_has b (Num (m + j)) \<and> \<not> Buffers_has b (Num (m - j))" by simp
  qed
  then show ?thesis by (simp add: findClosest_def)
qed

lemma triggerAttack_no_match:
  "findClosest (buffers s) (toMidi note0) = None \<Longrightarrow>
     triggerAttack toMidi ctx s note0 time velocity = Inr s"
  by (simp add: triggerAttack_def)

text \<open>
  C2. For every MIDI integer \<open>m\<close> the search returns a signed distance \<open>d\<close> with
  \<open>\<bar>d\<bar> \<le> 23\<close> (and then a sample is stored at \<open>m - d\<close>) or reports no match. When
  no sample lies within 23 semitones of \<open>m\<close> the search reports no match, whatever is
  stored 24 semitones away. No match is not an error: \<open>triggerAttack\<close> on such a note
  returns normally and leaves the sampler, and with it the registry of active Voices, as it
  was.
\<close>

theorem findClosest_radius:
  "(findClosest b m = Some d \<longrightarrow> \<bar>d\<bar> \<le> 23 \<and> Buffers_has b (Num (m - d)))
   \<and> ((\<forall>j. \<bar>j\<bar> \<le> 23 \<longrightarrow> \<not> Buffers_has b (Num (m + j))) \<longrightarrow> findClosest b m = None)
   \<and> (findClosest (buffers s) (toMidi note0) = None \<longrightarrow>
        triggerAttack toMidi ctx s note0 time velocity = Inr s)"
  using findClosest_Some [of b m d] findClosest_None [of b m]
    triggerAttack_no_match [of s toMidi note0 ctx time velocity]
  by blast

theorem findClosest_radius_witness:
  "findClosest bank_A4 92 = Some 23 \<and> Buffers_has bank_A4 (Num (92 - 23))
   \<and> Buffers_has bank_A4 (Num (93 - 24))
   \<and> \<not> (\<exists>j. \<bar>j\<bar> \<le> 23 \<and> Buffers_has bank_A4 (Num (93 + j)))
   \<and> findClosest bank_A4 93 = None
   \<and> Frequency_toMidi (Str ''A#6'') = 94
   \<and> findClosest (buffers sampler_A4) (Frequency_toMidi (Str ''A#6'')) = None
   \<and> triggerAttack Frequency_toMidi clock1 sampler_A4 (Str ''A#6'') None None = Inr sampler_A4"
proof -
  have hit: "findClosest bank_A4 92 = Some 23" by code_simp
  have at24: "Buffers_has bank_A4 (Num (93 - 24))" by code_simp
  have far: "list_all (\<lambda>j. \<not> Buffers_has bank_A4 (Num (93 + j))) [- 23 .. 23]" by code_simp
  have none: "\<forall>j. \<bar>j\<bar> \<le> 23 \<longrightarrow> \<not> Buffers_has bank_A4 (Num (93 + j))"
  proof (intro allI impI)
    fix j :: int
    assume "\<bar>j\<bar> \<le> 23"
    then have "j \<in> {- 23 .. 23}" by auto
    then have "j \<in> set [- 23 .. 23]" by (simp only: set_upto)
    with far show "\<not> Buffers_has bank_A4 (Num (93 + j))"
      unfolding list_all_iff by blast
  qed
  have midi: "Frequency_toMidi (Str ''A#6'') = 94" by code_simp
  have nomatch: "findClosest (buffers sampler_A4) (Frequency_toMidi (Str ''A#6'')) = None"
    by code_simp
  note thm1 = findClosest_radius [of bank_A4 92 23 sampler_A4 Frequency_toMidi "Str ''A#6''"
      clock1 None None]
  note thm2 = findClosest_radius [of bank_A4 93 0 sampler_A4 Frequency_toMidi "Str ''A#6''"
      clock1 None None]
  from thm1 hit have c1: "Buffers_has bank_A4 (Num (92 - 23))" by blast
  from thm2 none have c2: "findClosest bank_A4 93 = None" by blast
  from thm2 nomatch
  have c3: "triggerAttack Frequency_toMidi clock1 sampler_A4 (Str ''A#6'') None None = Inr sampler_A4"
    by blast
  from hit c1 at24 none c2 midi nomatch c3 show ?thesis by blast
qed

section \<open>triggerAttack: the buffer and the playback rate of the Voice\<close>

lemma start_fresh:
  assumes "startTime v = - 1" and "loaded (buffer v)" and "\<not> loop v"
  shows "\<exists>v'. start ctx v time offset dur gain0 fadeInTime = Inr v'
          \<and> buffer v' = buffer v \<and> playbackRate v' = playbackRate v
          \<and> sourceStart v' = Some (toSeconds ctx time, Some (defaultArg offset 0))"
  using assms
  by (simp add: start_def stop_def start_envelope_def start_source_def start_offset_def Let_def)

lemma start_not_loaded:
  "startTime v = - 1 \<Longrightarrow> \<not> loaded (buffer v) \<Longrightarrow>
     start ctx v time offset dur gain0 fadeInTime = Inl BufferNotReadyError"
  by (simp add: start_def)

lemma attack_voice:
  "startTime (BufferSource (attack_options s buf d)) = - 1"
  "buffer (BufferSource (attack_options s buf d)) = buf"
  "\<not> loop (BufferSource (attack_options s buf d))"
  "playbackRate (BufferSource (attack_options s buf d)) = 2 powr (real_of_int d / 12)"
  by (simp_all add: BufferSource_def attack_options_def BufferSource_defaults_def intervalToFrequencyRatio_def)

lemma triggerAttack_unfold:
  assumes "findClosest (buffers s) (toMidi note0) = Some d"
    and "buffers s (show_int (toMidi note0 - d)) = Some buf"
  shows "triggerAttack toMidi ctx s note0 time velocity =
     (case start ctx (BufferSource (attack_options s buf d)) time (Some 0) (Some (duration buf)) velocity None of
                     Inl e \<Rightarrow> Inl e
                   | Inr source1 \<Rightarrow>
                       Inr (s\<lparr>activeSources := (activeSources s)
                              (toMidi note0 \<mapsto> (case activeSources s (toMidi note0) of
                                           None \<Rightarrow> [] | Some q \<Rightarrow> q)
                                         @ [\<lparr>entry_note = toMidi note0, entry_source = source1\<rparr>])\<rparr>))"
  using assms by (simp add: triggerAttack_def Buffers_get_def Let_def attack_options_def)

lemma triggerAttack_match:
  assumes "findClosest (buffers s) (toMidi note0) = Some d"
  shows "\<exists>buf. Buffers_get (buffers s) (Num (toMidi note0 - d)) = Inr buf
     \<and> (loaded buf \<longrightarrow>
          (\<exists>v. triggerAttack toMidi ctx s note0 time velocity =
                 Inr (s\<lparr>activeSources := (activeSources s)
                        (toMidi note0 \<mapsto> (case activeSources s (toMidi note0) of
                                             None \<Rightarrow> [] | Some q \<Rightarrow> q)
                                           @ [\<lparr>entry_note = toMidi note0, entry_source = v\<rparr>])\<rparr>)
              \<and> buffer v = buf
              \<and> playbackRate v = 2 powr (real_of_int d / 12)
              \<and> sourceStart v = Some (toSeconds ctx time, Some 0)))
     \<and> (\<not> loaded buf \<longrightarrow>
          triggerAttack toMidi ctx s note0 time velocity = Inl BufferNotReadyError)"
proof -
  from findClosest_Some [of "buffers s" "toMidi note0" d] assms
  have "Buffers_has (buffers s) (Num (toMidi note0 - d))" by simp
  then obtain buf where buf: "buffers s (show_int (toMidi note0 - d)) = Some buf"
    by (auto simp: Buffers_has_def)
  then have get: "Buffers_get (buffers s) (Num (toMidi note0 - d)) = Inr buf"
    by (simp add: Buffers_get_def)
  note unf = triggerAttack_unfold [of s toMidi note0 d buf ctx time velocity, OF assms buf]
  let ?v0 = "BufferSource (attack_options s buf d)"
  have ok: "loaded buf \<longrightarrow>
          (\<exists>v. triggerAttack toMidi ctx s note0 time velocity =
                 Inr (s\<lparr>activeSources := (activeSources s)
                        (toMidi note0 \<mapsto> (case activeSources s (toMidi note0) of
                                             None \<Rightarrow> [] | Some q \<Rightarrow> q)
                                           @ [\<lparr>entry_note = toMidi note0, entry_source = v\<rparr>])\<rparr>)
              \<and> buffer v = buf
              \<and> playbackRate v = 2 powr (real_of_int d / 12)
              \<and> sourceStart v = Some (toSeconds ctx time, Some 0))"
  proof
    assume "loaded buf"
    then have "loaded (buffer ?v0)" by (simp add: attack_voice)
    from start_fresh [OF attack_voice(1) this attack_voice(3), of ctx time "Some 0" "Some (duration buf)" velocity None]
    obtain v where v: "start ctx ?v0 time (Some 0) (Some (duration buf)) velocity None = Inr v"
      "buffer v = buf" "playbackRate v = 2 powr (real_of_int d / 12)"
      "sourceStart v = Some (toSeconds ctx time, Some 0)"
      by (auto simp: attack_voice defaultArg_def)
    from unf v(1) have "triggerAttack toMidi ctx s note0 time velocity =
                 Inr (s\<lparr>activeSources := (activeSources s)
                        (toMidi note0 \<mapsto> (case activeSources s (toMidi note0) of
                                             None \<Rightarrow> [] | Some q \<Rightarrow> q)
                                           @ [\<lparr>entry_note = toMidi note0, entry_source = v\<rparr>])\<rparr>)"
      by simp
    with v(2-4) show "\<exists>v. triggerAttack toMidi ctx s note0 time velocity =
                 Inr (s\<lparr>activeSources := (activeSources s)
                        (toMidi note0 \<mapsto> (case activeSources s (toMidi note0) of
                                             None \<Rightarrow> [] | Some q \<Rightarrow> q)
                                           @ [\<lparr>entry_note = toMidi note0, entry_source = v\<rparr>])\<rparr>)
              \<and> buffer v = buf
              \<and> playbackRate v = 2 powr (real_of_int d / 12)
              \<and> sourceStart v = Some (toSeconds ctx time, Some 0)" by blast
  qed
  have bad: "\<not> loaded buf \<longrightarrow>
          triggerAttack toMidi ctx s note0 time velocity = Inl BufferNotReadyError"
  proof
    assume "\<not> loaded buf"
    then have "\<not> loaded (buffer ?v0)" by (simp add: attack_voice)
    from start_not_loaded [OF attack_voice(1) this]
    show "triggerAttack toMidi ctx s note0 time velocity = Inl BufferNotReadyError"
      using unf by simp
  qed
  from get ok bad show ?thesis by blast
qed







section \<open>The Voice: fields that start and stop leave alone\<close>

lemma start_envelope_fields [simp]:
  "buffer (start_envelope v t g f) = buffer v"
  "playbackRate (start_envelope v t g f) = playbackRate v"
  "loop (start_envelope v t g f) = loop v"
  "loopStart (start_envelope v t g f) = loopStart v"
  "loopEnd (start_envelope v t g f) = loopEnd v"
  "fadeIn (start_envelope v t g f) = fadeIn v"
  "fadeOut (start_envelope v t g f) = fadeOut v"
  "gain (start_envelope v t g f) = g"
  "startTime (start_envelope v t g f) = t + f"
  "stopTime (start_envelope v t g f) = stopTime v"
  "onendedTimeout (start_envelope v t g f) = onendedTimeout v"
  "sourceStart (start_envelope v t g f) = sourceStart v"
  by (simp_all add: start_envelope_def)

lemma start_source_fields [simp]:
  "buffer (start_source v t off) = buffer v"
  "playbackRate (start_source v t off) = playbackRate v"
  "loop (start_source v t off) = loop v"
  "fadeIn (start_source v t off) = fadeIn v"
  "fadeOut (start_source v t off) = fadeOut v"
  "gain (start_source v t off) = gain v"
  "startTime (start_source v t off) = startTime v"
  "stopTime (start_source v t off) = stopTime v"
  "onendedTimeout (start_source v t off) = onendedTimeout v"
  "gainEvents (start_source v t off) = gainEvents v"
  by (simp_all add: start_source_def Let_def)

lemma stop_fields:
  "stop ctx v time fadeOutTime = Inr v' \<Longrightarrow>
     startTime v' = startTime v \<and> buffer v' = buffer v \<and> loop v' = loop v
     \<and> stopTime v' = toSeconds ctx time + (case fadeOutTime of None \<Rightarrow> fadeOut v | Some f \<Rightarrow> f)"
  by (auto simp: stop_def Let_def split: if_splits)

lemma voiceX_fields:
  "startTime voiceX = - 1" "loaded (buffer voiceX)" "\<not> loop voiceX" "fadeIn voiceX = 0"
  "stopTime voiceX = - 1" "duration (buffer voiceX) = 2"
  by (simp_all add: voiceX_def BufferSource_def BufferSource_defaults_def bufferX_def)

lemma loopingX_fields:
  "startTime loopingX = - 1" "loaded (buffer loopingX)" "loop loopingX" "fadeIn loopingX = 0"
  "stopTime loopingX = - 1" "duration (buffer loopingX) = 2" "loopStart loopingX = 0" "loopEnd loopingX = 0"
  by (simp_all add: loopingX_def BufferSource_def BufferSource_defaults_def bufferX_def)

section \<open>The Voice: start succeeds at most once\<close>

lemma start_startTime:
  "start ctx v time offset dur gain0 fadeInTime = Inr v' \<Longrightarrow>
     startTime v' = toSeconds ctx time + start_fadeIn v fadeInTime"
  by (auto simp: start_def stop_def start_envelope_def start_source_def Let_def
      split: if_splits)

lemma start_started:
  "startTime v \<noteq> - 1 \<Longrightarrow> start ctx v time offset dur gain0 fadeInTime = Inl AlreadyStartedError"
  by (simp add: start_def)

lemma call_voice_started:
  "startTime v \<noteq> - 1 \<Longrightarrow> startTime (call_voice v c) = startTime v"
proof (cases c)
  case (Start ctx time offset dur gain0 fadeInTime)
  assume "startTime v \<noteq> - 1"
  then show ?thesis by (simp add: Start start_started)
next
  case (Stop ctx time fadeOutTime)
  show ?thesis
  proof (cases "stop ctx v time fadeOutTime")
    case (Inl e)
    then show ?thesis by (simp add: Stop)
  next
    case (Inr v')
    from stop_fields [OF Inr] Inr show ?thesis by (simp add: Stop)
  qed
qed

lemma calls_started:
  "startTime v \<noteq> - 1 \<Longrightarrow> startTime (foldl call_voice v cs) = startTime v"
proof (induction cs arbitrary: v)
  case Nil
  show ?case by simp
next
  case (Cons c cs)
  from call_voice_started [OF Cons.prems, of c] Cons.prems
  have "startTime (call_voice v c) \<noteq> - 1" by simp
  from Cons.IH [OF this] call_voice_started [OF Cons.prems, of c]
  show ?case by simp
qed

text \<open>
  Where the guard works. The guard of \<open>start\<close> reads the recorded start time, and
  \<open>- 1\<close> stands for "not started". Once a \<open>start\<close> has succeeded and recorded a
  start time \<open>time + fadeIn\<close> other than \<open>- 1\<close>, every later \<open>start\<close> on the
  same Voice fails with \<open>AlreadyStartedError\<close>, whatever its arguments, whatever the
  clock shows and whatever calls of \<open>start\<close> and \<open>stop\<close> were made in between.
\<close>

lemma start_refused_once_recorded:
  assumes "start ctx v time offset dur gain0 fadeInTime = Inr v'"
    and "toSeconds ctx time + start_fadeIn v fadeInTime \<noteq> - 1"
  shows "start ctx' (foldl call_voice v' cs) time' offset' dur' gain' fadeInTime'
           = Inl AlreadyStartedError"
proof -
  from start_startTime [OF assms(1)] assms(2) have "startTime v' \<noteq> - 1" by simp
  with calls_started [of v' cs] have "startTime (foldl call_voice v' cs) \<noteq> - 1" by simp
  then show ?thesis by (rule start_started)
qed

lemma start_refused_once_recorded_instance:
  "start clock1 voiceX (Some 3) None None None None
     = Inr (projr (start clock1 voiceX (Some 3) None None None None))
   \<and> toSeconds clock1 (Some 3) + start_fadeIn voiceX None \<noteq> - 1
   \<and> start clock1 (projr (start clock1 voiceX (Some 3) None None None None))
        (Some 4) None None None None = Inl AlreadyStartedError
   \<and> start clock1
        (foldl call_voice (projr (start clock1 voiceX (Some 3) None None None None))
           [Stop clock1 (Some 4) None])
        (Some 6) (Some 1) (Some 1) (Some 1) (Some 1) = Inl AlreadyStartedError"
proof -
  let ?v' = "projr (start clock1 voiceX (Some 3) None None None None)"
  have ok: "start clock1 voiceX (Some 3) None None None None = Inr ?v'"
    by (simp add: start_def stop_def voiceX_fields Let_def)
  have ne: "toSeconds clock1 (Some 3) + start_fadeIn voiceX None \<noteq> - 1"
    by (simp add: toSeconds_def start_fadeIn_def voiceX_fields)
  from start_refused_once_recorded [OF ok ne, of clock1 "[]" "Some 4" None None None None]
  have a: "start clock1 ?v' (Some 4) None None None None = Inl AlreadyStartedError" by simp
  from start_refused_once_recorded [OF ok ne, of clock1 "[Stop clock1 (Some 4) None]"]
  have b: "start clock1 (foldl call_voice ?v' [Stop clock1 (Some 4) None])
        (Some 6) (Some 1) (Some 1) (Some 1) (Some 1) = Inl AlreadyStartedError" .
  from ok ne a b show ?thesis by blast
qed

text \<open>
  C4. For every Voice, a second \<open>start\<close> on the same instance is to fail with
  \<open>AlreadyStartedError\<close>, whatever the arguments of either call. The code misses this
  where the start time it records, \<open>time + fadeIn\<close>, is the very value \<open>- 1\<close> that
  marks a Voice as not started: a looping Voice started at time 0 with a fade-in override
  of \<open>- 1\<close> is started (gain set, native source started at time 0), records the start
  time \<open>- 1\<close>, and the guard of a second \<open>start\<close> lets that call through, so it
  does not fail with \<open>AlreadyStartedError\<close>. (The second call then runs the body of
  \<open>start\<close> again, up to the native source; what the native source does when it is
  started a second time lies outside the Voice.)
\<close>

theorem start_twice_passes_guard:
  "start clock1 loopingX (Some 0) None None None (Some (- 1))
     = Inr (start_source (start_envelope loopingX 0 1 (- 1)) 0 0)
   \<and> startTime (start_source (start_envelope loopingX 0 1 (- 1)) 0 0) = - 1
   \<and> start clock1 (start_source (start_envelope loopingX 0 1 (- 1)) 0 0) (Some 0) None None None None
       \<noteq> Inl AlreadyStartedError"
  by (simp add: start_def loopingX_fields Let_def toSeconds_def start_offset_def defaultArg_def
      start_fadeIn_def start_envelope_def start_source_def)

text \<open>
  The same two calls, with the second made on whatever Voice the first returns.
\<close>

theorem start_twice_passes_guard_witness:
  "sourceStart (projr (start clock1 loopingX (Some 0) None None None (Some (- 1))))
     = Some (0, Some 0)
   \<and> startTime (projr (start clock1 loopingX (Some 0) None None None (Some (- 1)))) = - 1
   \<and> start clock1 (projr (start clock1 loopingX (Some 0) None None None (Some (- 1))))
        (Some 0) None None None None \<noteq> Inl AlreadyStartedError"
proof -
  let ?w = "start_source (start_envelope loopingX 0 1 (- 1)) 0 0"
  from start_twice_passes_guard
  have first: "start clock1 loopingX (Some 0) None None None (Some (- 1)) = Inr ?w"
    and rec: "startTime ?w = - 1"
    and second: "start clock1 ?w (Some 0) None None None None \<noteq> Inl AlreadyStartedError"
    by blast+
  have native: "sourceStart ?w = Some (0, Some 0)"
    by (simp add: start_source_def start_envelope_def loopingX_fields Let_def)
  from first have w: "projr (start clock1 loopingX (Some 0) None None None (Some (- 1))) = ?w"
    by (simp only: sum.sel)
  from native rec second show ?thesis by (simp only: w) blast
qed

section \<open>The Voice: when stop fails\<close>

text \<open>
  C5, as it holds of the code. \<open>stop\<close> fails with \<open>BufferNotReadyError\<close> exactly
  when the bound buffer is unset or has not finished loading: it does so then, whether or
  not \<open>start\<close> has been called, and in no other case.
\<close>

theorem stop_fails_iff_not_loaded:
  "stop ctx v time fadeOutTime = Inl BufferNotReadyError \<longleftrightarrow> \<not> loaded (buffer v)"
  by (simp add: stop_def Let_def)

text \<open>
  C5 as stated fails for \<open>stop\<close> before \<open>start\<close>: on a Voice that was never started
  and whose buffer has loaded, \<open>stop\<close> does not fail with \<open>BufferNotReadyError\<close>.
  The test of the buffer passes and the body of \<open>stop\<close> runs. (It hands the cancel time
  \<open>- 1 + sampleTime\<close> to the gain parameter of the audio graph; what the audio graph
  does with a negative time lies outside the Voice.)
\<close>

theorem stop_before_start_counterexample:
  "startTime voiceX = - 1 \<and> sourceStart voiceX = None \<and> loaded (buffer voiceX)
   \<and> stop clock1 voiceX (Some 2) None \<noteq> Inl BufferNotReadyError"
  by (simp add: stop_def voiceX_def BufferSource_def BufferSource_defaults_def bufferX_def
      clock1_def toSeconds_def Let_def)

section \<open>The Voice: the duration and the automatic stop\<close>

lemma computedDur_bound:
  "\<not> loop v \<Longrightarrow> computedDur v off dur \<le> duration (buffer v) - off"
  by (simp add: computedDur_def Let_def)

lemma computedDur_default:
  "\<not> loop v \<Longrightarrow> computedDur v off None = duration (buffer v) - off"
  by (simp add: computedDur_def defaultArg_def Let_def)

lemma computedDur_explicit:
  "computedDur v off (Some d) =
     (if loop v then max d 0 else min (max d 0) (duration (buffer v) - off))"
  by (simp add: computedDur_def defaultArg_def Let_def)

lemma start_with_stop:
  assumes "start ctx v time offset dur gain0 fadeInTime = Inr v'"
    and "\<not> loop v \<or> dur \<noteq> None"
  shows "\<exists>v2. stop ctx (start_envelope v (toSeconds ctx time) (defaultArg gain0 1)
                 (start_fadeIn v fadeInTime))
               (Some (toSeconds ctx time + computedDur v (start_offset v offset) dur
                      + start_fadeIn v fadeInTime))
               (Some (start_fadeIn v fadeInTime)) = Inr v2
          \<and> v' = start_source v2 (toSeconds ctx time) (start_offset v offset)"
  using assms by (auto simp: start_def Let_def split: if_splits sum.splits)

lemma start_without_stop:
  assumes "start ctx v time offset None gain0 fadeInTime = Inr v'" and "loop v"
  shows "v' = start_source (start_envelope v (toSeconds ctx time) (defaultArg gain0 1)
                 (start_fadeIn v fadeInTime)) (toSeconds ctx time) (start_offset v offset)"
  using assms by (auto simp: start_def Let_def split: if_splits)

text \<open>
  C6, as it holds of the code. For every successful \<open>start\<close>, with \<open>T\<close> the time,
  \<open>off\<close> the offset, \<open>F\<close> the fade-in and \<open>D\<close> the duration it resolves:
  when the Voice does not loop, \<open>D\<close> never exceeds \<open>buffer.duration - off\<close>, is
  exactly that bound by default, and is the given duration, raised to 0 when negative and
  clipped to that bound, otherwise; when the Voice loops and a duration is given, \<open>D\<close> is
  that duration, raised to 0 when negative and not clipped to the buffer. In both cases
  \<open>stop\<close> is called for \<open>T + D + F\<close> with \<open>F\<close> as the fade-out override, so the
  recorded stop time is \<open>T + D + F + F\<close> and the completion timer is set for it. A looping
  Voice without a duration gets no call of \<open>stop\<close>: stop time and timer stay as they were.
\<close>

theorem start_schedules_stop:
  assumes "start ctx v time offset dur gain0 fadeInTime = Inr v'"
  shows
    "(let T = toSeconds ctx time; off = start_offset v offset; G = defaultArg gain0 1;
          F = start_fadeIn v fadeInTime; D = computedDur v off dur
      in (\<not> loop v \<longrightarrow>
            D \<le> duration (buffer v) - off
          \<and> (dur = None \<longrightarrow> D = duration (buffer v) - off)
          \<and> (\<forall>d. dur = Some d \<longrightarrow> D = min (max d 0) (duration (buffer v) - off)))
       \<and> (loop v \<longrightarrow> (\<forall>d. dur = Some d \<longrightarrow> D = max d 0))
       \<and> (\<not> loop v \<or> dur \<noteq> None \<longrightarrow>
            (\<exists>v2. stop ctx (start_envelope v T G F) (Some (T + D + F)) (Some F) = Inr v2
                 \<and> v' = start_source v2 T off)
          \<and> stopTime v' = T + D + F + F
          \<and> onendedTimeout v' = Some (T + D + F + F - now ctx))
       \<and> (loop v \<and> dur = None \<longrightarrow>
            v' = start_source (start_envelope v T G F) T off
          \<and> stopTime v' = stopTime v
          \<and> onendedTimeout v' = onendedTimeout v))"
proof -
  let ?T = "toSeconds ctx time" and ?off = "start_offset v offset"
  let ?G = "defaultArg gain0 1" and ?F = "start_fadeIn v fadeInTime"
  let ?D = "computedDur v ?off dur"
  have a: "\<not> loop v \<longrightarrow>
            ?D \<le> duration (buffer v) - ?off
          \<and> (dur = None \<longrightarrow> ?D = duration (buffer v) - ?off)
          \<and> (\<forall>d. dur = Some d \<longrightarrow> ?D = min (max d 0) (duration (buffer v) - ?off))"
    using computedDur_bound [of v ?off dur] computedDur_default [of v ?off]
      computedDur_explicit [of v ?off]
    by auto
  have b: "loop v \<longrightarrow> (\<forall>d. dur = Some d \<longrightarrow> ?D = max d 0)"
    using computedDur_explicit [of v ?off] by auto
  have c: "\<not> loop v \<or> dur \<noteq> None \<longrightarrow>
            (\<exists>v2. stop ctx (start_envelope v ?T ?G ?F) (Some (?T + ?D + ?F)) (Some ?F) = Inr v2
                 \<and> v' = start_source v2 ?T ?off)
          \<and> stopTime v' = ?T + ?D + ?F + ?F
          \<and> onendedTimeout v' = Some (?T + ?D + ?F + ?F - now ctx)"
  proof
    assume h: "\<not> loop v \<or> dur \<noteq> None"
    from start_with_stop [OF assms h]
    obtain v2 where v2: "stop ctx (start_envelope v ?T ?G ?F) (Some (?T + ?D + ?F)) (Some ?F) = Inr v2"
      "v' = start_source v2 ?T ?off" by blast
    from v2(1) have "stopTime v2 = ?T + ?D + ?F + ?F"
      "onendedTimeout v2 = Some (?T + ?D + ?F + ?F - now ctx)"
      by (auto simp: stop_def Let_def toSeconds_def split: if_splits)
    with v2 show "(\<exists>v2. stop ctx (start_envelope v ?T ?G ?F) (Some (?T + ?D + ?F)) (Some ?F) = Inr v2
                 \<and> v' = start_source v2 ?T ?off)
          \<and> stopTime v' = ?T + ?D + ?F + ?F
          \<and> onendedTimeout v' = Some (?T + ?D + ?F + ?F - now ctx)"
      by auto
  qed
  have d: "loop v \<and> dur = None \<longrightarrow>
            v' = start_source (start_envelope v ?T ?G ?F) ?T ?off
          \<and> stopTime v' = stopTime v
          \<and> onendedTimeout v' = onendedTimeout v"
  proof
    assume h: "loop v \<and> dur = None"
    with assms have "start ctx v time offset None gain0 fadeInTime = Inr v'" by simp
    from start_without_stop [OF this] h
    have "v' = start_source (start_envelope v ?T ?G ?F) ?T ?off" by simp
    then show "v' = start_source (start_envelope v ?T ?G ?F) ?T ?off
          \<and> stopTime v' = stopTime v
          \<and> onendedTimeout v' = onendedTimeout v" by simp
  qed
  from a b c d show ?thesis by (simp only: Let_def)
qed

theorem start_schedules_stop_witness:
  "start clock1 voiceX (Some 1) (Some (1 / 2)) (Some 5) None (Some (1 / 4))
     = Inr (projr (start clock1 voiceX (Some 1) (Some (1 / 2)) (Some 5) None (Some (1 / 4))))
   \<and> \<not> loop voiceX
   \<and> computedDur voiceX (1 / 2) (Some 5) = 3 / 2
   \<and> stopTime (projr (start clock1 voiceX (Some 1) (Some (1 / 2)) (Some 5) None (Some (1 / 4)))) = 3
   \<and> onendedTimeout (projr (start clock1 voiceX (Some 1) (Some (1 / 2)) (Some 5) None (Some (1 / 4))))
       = Some 2"
proof -
  let ?r = "start clock1 voiceX (Some 1) (Some (1 / 2)) (Some 5) None (Some (1 / 4))"
  have ok: "?r = Inr (projr ?r)"
    by (simp add: start_def stop_def voiceX_fields Let_def)
  have nl: "\<not> loop voiceX" by (rule voiceX_fields)
  have t: "toSeconds clock1 (Some 1) = 1" "start_offset voiceX (Some (1 / 2)) = 1 / 2"
    "start_fadeIn voiceX (Some (1 / 4)) = 1 / 4" "now clock1 = 1"
    by (simp_all add: toSeconds_def start_offset_def start_fadeIn_def defaultArg_def
        voiceX_fields clock1_def)
  have d: "computedDur voiceX (1 / 2) (Some 5) = 3 / 2"
    by (simp add: computedDur_def defaultArg_def voiceX_fields Let_def)
  from start_schedules_stop [OF ok] nl
  have "stopTime (projr ?r) = 3 \<and> onendedTimeout (projr ?r) = Some 2"
    by (simp add: Let_def t d)
  with ok nl d show ?thesis by blast
qed

text \<open>
  C6 as stated fails for a looping Voice with a negative duration: it does not get that
  duration. Started at time 5 with duration \<open>- 1\<close> and no fade-in, its stop is recorded
  at 5, not at 4.
\<close>

theorem looping_duration_counterexample:
  "loop loopingX
   \<and> map_sum id stopTime (start clock1 loopingX (Some 5) (Some 0) (Some (- 1)) None None) = Inr 5
   \<and> map_sum id stopTime (start clock1 loopingX (Some 5) (Some 0) (Some (- 1)) None None)
       \<noteq> Inr (5 + (- 1) + fadeIn loopingX + fadeIn loopingX)"
  by (simp add: start_def stop_def loopingX_fields Let_def toSeconds_def start_offset_def
      defaultArg_def start_fadeIn_def computedDur_def)

section \<open>The Voice: the state of a loop without a duration\<close>

text \<open>
  C10. A looping Voice on which no \<open>stop\<close> has been recorded (stop time \<open>- 1\<close>) and
  which is started without a duration keeps the stop time \<open>- 1\<close> and gets no timer; its
  state is \<open>Stopped\<close> at every reading of the clock from \<open>- 1\<close> on, and so at every
  time an audio clock shows, also after the start time, while the source plays.
\<close>

theorem looping_state_stopped:
  assumes "loop v" and "stopTime v = - 1"
    and "start ctx v time offset None gain0 fadeInTime = Inr v'"
    and "- 1 \<le> now ctx'"
  shows "stopTime v' = - 1 \<and> onendedTimeout v' = onendedTimeout v \<and> state ctx' v' = Stopped"
proof -
  from assms(1,3) have "v' = start_source (start_envelope v (toSeconds ctx time) (defaultArg gain0 1)
      (start_fadeIn v fadeInTime)) (toSeconds ctx time) (start_offset v offset)"
    by (auto simp: start_def Let_def split: if_splits)
  then have "stopTime v' = stopTime v" "onendedTimeout v' = onendedTimeout v"
    by (simp_all add: start_source_def start_envelope_def Let_def)
  with assms(2,4) show ?thesis by (simp add: state_def)
qed

theorem looping_state_stopped_witness:
  "loop loopingX \<and> stopTime loopingX = - 1
   \<and> start clock1 loopingX (Some 1) None None None None
       = Inr (start_source (start_envelope loopingX 1 1 0) 1 0)
   \<and> - 1 \<le> now \<lparr>now = 3 / 2, sampleTime = 1 / 44100\<rparr>
   \<and> startTime (start_source (start_envelope loopingX 1 1 0) 1 0) = 1
   \<and> sourceStart (start_source (start_envelope loopingX 1 1 0) 1 0) = Some (1, Some 0)
   \<and> state \<lparr>now = 3 / 2, sampleTime = 1 / 44100\<rparr> (start_source (start_envelope loopingX 1 1 0) 1 0) = Stopped"
proof -
  have st: "start clock1 loopingX (Some 1) None None None None
       = Inr (start_source (start_envelope loopingX 1 1 0) 1 0)"
    by (simp add: start_def loopingX_fields Let_def toSeconds_def start_offset_def defaultArg_def
      start_fadeIn_def)
  have n: "- 1 \<le> now \<lparr>now = 3 / 2, sampleTime = 1 / 44100\<rparr>" by simp
  have f: "startTime (start_source (start_envelope loopingX 1 1 0) 1 0) = 1"
    "sourceStart (start_source (start_envelope loopingX 1 1 0) 1 0) = Some (1, Some 0)"
    by (simp_all add: start_source_def start_envelope_def loopingX_fields Let_def)
  from looping_state_stopped [OF loopingX_fields(3) loopingX_fields(5) st n] loopingX_fields st n f
  show ?thesis by blast
qed

section \<open>triggerRelease: first in, first out\<close>

lemma triggerRelease_empty:
  "activeSources s (toMidi note0) = None \<or> activeSources s (toMidi note0) = Some [] \<Longrightarrow>
     triggerRelease toMidi ctx s note0 time = (None, s)"
  by (auto simp: triggerRelease_def)

lemma triggerRelease_oldest:
  "activeSources s (toMidi note0) = Some (e # es) \<Longrightarrow>
     triggerRelease toMidi ctx s note0 time =
       (Some (stop ctx (entry_source e) time (Some (release s))),
        s\<lparr>activeSources := (activeSources s)(toMidi note0 \<mapsto> es)\<rparr>)"
  by (simp add: triggerRelease_def)

lemma activeSources_same:
  "activeSources s m = Some q \<Longrightarrow> s\<lparr>activeSources := (activeSources s)(m \<mapsto> q)\<rparr> = s"
  by (simp add: map_upd_triv)

lemma releases_queue:
  "activeSources s (toMidi note0) = Some q \<Longrightarrow>
     releases toMidi s note0 calls =
       (map (\<lambda>(e, c, t). Some (stop c (entry_source e) t (Some (release s)))) (zip q calls)
          @ replicate (length calls - length q) None,
        s\<lparr>activeSources := (activeSources s)(toMidi note0 \<mapsto> drop (length calls) q)\<rparr>)"
proof (induction calls arbitrary: s q)
  case Nil
  have same: "s\<lparr>activeSources := (activeSources s)(toMidi note0 \<mapsto> q)\<rparr> = s"
    by (rule activeSources_same [OF Nil.prems])
  show ?case by (simp only: releases.simps list.size drop_0 same) simp
next
  case (Cons call calls)
  obtain ctx t where call: "call = (ctx, t)" by (cases call)
  show ?case
  proof (cases q)
    case Nil
    with Cons.prems have r: "triggerRelease toMidi ctx s note0 t = (None, s)"
      by (simp add: triggerRelease_empty)
    have same: "s\<lparr>activeSources := (activeSources s)(toMidi note0 \<mapsto> [])\<rparr> = s"
      by (rule activeSources_same) (use Cons.prems Nil in simp)
    from Cons.IH [OF Cons.prems] Nil r call show ?thesis
      by (simp add: replicate_append_same same)
  next
    case (Cons e es)
    let ?m = "toMidi note0"
    let ?s1 = "s\<lparr>activeSources := (activeSources s)(?m \<mapsto> es)\<rparr>"
    from Cons Cons.prems
    have r: "triggerRelease toMidi ctx s note0 t =
       (Some (stop ctx (entry_source e) t (Some (release s))), ?s1)"
      by (simp add: triggerRelease_oldest)
    have q1: "activeSources ?s1 ?m = Some es" by simp
    have ih: "releases toMidi ?s1 note0 calls =
       (map (\<lambda>(e, c, t). Some (stop c (entry_source e) t (Some (release ?s1)))) (zip es calls)
          @ replicate (length calls - length es) None,
        ?s1\<lparr>activeSources := (activeSources ?s1)(?m \<mapsto> drop (length calls) es)\<rparr>)"
      by (rule Cons.IH [OF q1])
    have s1: "?s1\<lparr>activeSources := (activeSources ?s1)(?m \<mapsto> drop (length calls) es)\<rparr>
        = s\<lparr>activeSources := (activeSources s)(?m \<mapsto> drop (length calls) es)\<rparr>"
      by simp
    have rel: "release ?s1 = release s" by simp
    have "releases toMidi s note0 ((ctx, t) # calls) =
       (Some (stop ctx (entry_source e) t (Some (release s)))
          # map (\<lambda>(e, c, t). Some (stop c (entry_source e) t (Some (release s)))) (zip es calls)
          @ replicate (length calls - length es) None,
        s\<lparr>activeSources := (activeSources s)(?m \<mapsto> drop (length calls) es)\<rparr>)"
      by (simp only: releases.simps r ih s1 rel Let_def prod.case)
    then show ?thesis
      by (simp only: call Cons zip_Cons_Cons list.map prod.case length_Cons diff_Suc_Suc
          drop_Suc_Cons append_Cons)
  qed
qed

lemma triggerAttack_appends:
  "triggerAttack toMidi ctx s note0 time velocity = Inr s' \<Longrightarrow>
     s' = s \<or> (\<exists>v. loaded (buffer v) \<and>
        s' = s\<lparr>activeSources := (activeSources s)
                (toMidi note0 \<mapsto> (case activeSources s (toMidi note0) of
                                     None \<Rightarrow> [] | Some q \<Rightarrow> q)
                                   @ [\<lparr>entry_note = toMidi note0, entry_source = v\<rparr>])\<rparr>)"
proof -
  assume a: "triggerAttack toMidi ctx s note0 time velocity = Inr s'"
  show ?thesis
  proof (cases "findClosest (buffers s) (toMidi note0)")
    case None
    with a show ?thesis by (simp add: triggerAttack_def)
  next
    case (Some d)
    from triggerAttack_match [of s toMidi note0 d ctx time velocity, OF Some]
    obtain buf where buf: "loaded buf \<longrightarrow>
          (\<exists>v. triggerAttack toMidi ctx s note0 time velocity =
                 Inr (s\<lparr>activeSources := (activeSources s)
                        (toMidi note0 \<mapsto> (case activeSources s (toMidi note0) of
                                             None \<Rightarrow> [] | Some q \<Rightarrow> q)
                                           @ [\<lparr>entry_note = toMidi note0, entry_source = v\<rparr>])\<rparr>)
              \<and> buffer v = buf
              \<and> playbackRate v = 2 powr (real_of_int d / 12)
              \<and> sourceStart v = Some (toSeconds ctx time, Some 0))"
      "\<not> loaded buf \<longrightarrow>
          triggerAttack toMidi ctx s note0 time velocity = Inl BufferNotReadyError"
      by blast
    from buf(2) a have ld: "loaded buf" by auto
    with buf(1) a show ?thesis by auto
  qed
qed

lemma voice_at_start:
  "start clock1 (BufferSource (attack_options sampler_A4 bufferX 0))
     (Some t) (Some 0) (Some (duration bufferX)) None None = Inr (voice_at t)"
proof -
  have "loaded (buffer (BufferSource (attack_options sampler_A4 bufferX 0)))"
    by (simp add: attack_voice bufferX_def)
  from start_fresh [OF attack_voice(1) this attack_voice(3)]
  show ?thesis unfolding voice_at_def by (metis sum.sel(2))
qed

lemma voice_at_fields:
  "startTime (voice_at t) = t" "loaded (buffer (voice_at t))"
proof -
  from start_startTime [OF voice_at_start [of t]]
  show "startTime (voice_at t) = t"
    by (simp add: toSeconds_def start_fadeIn_def BufferSource_def attack_options_def
        BufferSource_defaults_def sampler_A4_def)
  have "loaded (buffer (BufferSource (attack_options sampler_A4 bufferX 0)))"
    by (simp add: attack_voice bufferX_def)
  from start_fresh [OF attack_voice(1) this attack_voice(3), of clock1 "Some t" "Some 0"
      "Some (duration bufferX)" None None] voice_at_start [of t]
  show "loaded (buffer (voice_at t))" by (simp add: attack_voice bufferX_def)
qed

lemma sampler_A4_attack_once:
  "triggerAttack Frequency_toMidi clock1 sampler_A4 (Str ''A4'') (Some 1) None = Inr sampler_A4_once"
proof -
  have m: "Frequency_toMidi (Str ''A4'') = 69" by code_simp
  have d: "findClosest (buffers sampler_A4) (Frequency_toMidi (Str ''A4'')) = Some 0" by code_simp
  have b: "buffers sampler_A4 (show_int (Frequency_toMidi (Str ''A4'') - 0)) = Some bufferX"
    by code_simp
  show ?thesis
    unfolding triggerAttack_unfold [of sampler_A4 Frequency_toMidi "Str ''A4''" 0 bufferX, OF d b]
    by (simp only: voice_at_start m sum.case sampler_A4_once_def) (simp add: sampler_A4_def)
qed

lemma sampler_A4_attack_twice:
  "triggerAttack Frequency_toMidi clock1 sampler_A4_once (Str ''A4'') (Some 2) None = Inr sampler_A4_twice"
proof -
  have m: "Frequency_toMidi (Str ''A4'') = 69" by code_simp
  have bs: "buffers sampler_A4_once = buffers sampler_A4" by (simp add: sampler_A4_once_def)
  have d: "findClosest (buffers sampler_A4_once) (Frequency_toMidi (Str ''A4'')) = Some 0"
    unfolding bs by code_simp
  have b: "buffers sampler_A4_once (show_int (Frequency_toMidi (Str ''A4'') - 0)) = Some bufferX"
    unfolding bs by code_simp
  have o: "attack_options sampler_A4_once bufferX 0 = attack_options sampler_A4 bufferX 0"
    by (simp add: attack_options_def sampler_A4_once_def)
  show ?thesis
    unfolding triggerAttack_unfold [of sampler_A4_once Frequency_toMidi "Str ''A4''" 0 bufferX, OF d b]
    by (simp only: o voice_at_start m sum.case sampler_A4_twice_def)
       (simp add: sampler_A4_once_def)
qed

text \<open>
  C7. \<open>triggerRelease\<close> on a note whose queue of active Voices is absent or empty stops
  nothing and leaves the sampler as it was. On a note whose queue holds \<open>N\<close> Voices,
  \<open>N\<close> calls of \<open>triggerRelease\<close> one after the other call \<open>stop\<close> on the Voices
  in the order of the queue, each with the time of its call and the release of the sampler
  as the fade-out, and leave the queue empty. The order of the queue is the order of the
  attacks: a \<open>triggerAttack\<close> that returns normally either leaves the sampler as it was
  (no match) or appends one Voice, on a loaded buffer, at the end of the queue of its note.
  On a Voice with a loaded buffer such a \<open>stop\<close> returns normally and records the stop
  time \<open>time + release\<close>.
\<close>

theorem triggerRelease_fifo:
  "(activeSources s (toMidi note0) = None \<or> activeSources s (toMidi note0) = Some [] \<longrightarrow>
      triggerRelease toMidi ctx s note0 time = (None, s))
   \<and> (activeSources s (toMidi note0) = Some q \<and> length calls = length q \<longrightarrow>
        releases toMidi s note0 calls =
          (map (\<lambda>(e, c, t). Some (stop c (entry_source e) t (Some (release s)))) (zip q calls),
           s\<lparr>activeSources := (activeSources s)(toMidi note0 \<mapsto> [])\<rparr>))
   \<and> (triggerAttack toMidi ctx s note0 time velocity = Inr s' \<longrightarrow>
        s' = s \<or> (\<exists>v. loaded (buffer v) \<and>
          s' = s\<lparr>activeSources := (activeSources s)
                  (toMidi note0 \<mapsto> (case activeSources s (toMidi note0) of
                                       None \<Rightarrow> [] | Some q \<Rightarrow> q)
                                     @ [\<lparr>entry_note = toMidi note0, entry_source = v\<rparr>])\<rparr>))
   \<and> (loaded (buffer w) \<longrightarrow>
        (\<exists>w'. stop ctx w time (Some (release s)) = Inr w'
           \<and> stopTime w' = toSeconds ctx time + release s))"
proof -
  have c: "loaded (buffer w) \<longrightarrow>
        (\<exists>w'. stop ctx w time (Some (release s)) = Inr w'
           \<and> stopTime w' = toSeconds ctx time + release s)"
    by (simp add: stop_def Let_def)
  have b: "activeSources s (toMidi note0) = Some q \<and> length calls = length q \<longrightarrow>
        releases toMidi s note0 calls =
          (map (\<lambda>(e, c, t). Some (stop c (entry_source e) t (Some (release s)))) (zip q calls),
           s\<lparr>activeSources := (activeSources s)(toMidi note0 \<mapsto> [])\<rparr>)"
    using releases_queue [of s toMidi note0 q calls] by auto
  from triggerRelease_empty [of s toMidi note0 ctx time] b c
    triggerAttack_appends [of toMidi ctx s note0 time velocity s']
  show ?thesis by blast
qed


theorem triggerRelease_fifo_witness:
  "triggerRelease Frequency_toMidi clock1 sampler_A4 (Str ''A4'') None = (None, sampler_A4)
   \<and> triggerAttack Frequency_toMidi clock1 sampler_A4 (Str ''A4'') (Some 1) None = Inr sampler_A4_once
   \<and> triggerAttack Frequency_toMidi clock1 sampler_A4_once (Str ''A4'') (Some 2) None
       = Inr sampler_A4_twice
   \<and> releases Frequency_toMidi sampler_A4_twice (Str ''A4'') [(clock1, Some 3), (clock1, Some 4)]
       = ([Some (stop clock1 (voice_at 1) (Some 3) (Some (1 / 10))),
           Some (stop clock1 (voice_at 2) (Some 4) (Some (1 / 10)))],
          sampler_A4\<lparr>activeSources := [69 \<mapsto> []]\<rparr>)
   \<and> startTime (voice_at 1) = 1 \<and> startTime (voice_at 2) = 2
   \<and> map_sum id stopTime (stop clock1 (voice_at 1) (Some 3) (Some (1 / 10))) = Inr (31 / 10)
   \<and> map_sum id stopTime (stop clock1 (voice_at 2) (Some 4) (Some (1 / 10))) = Inr (41 / 10)"
proof -
  let ?e1 = "\<lparr>entry_note = 69, entry_source = voice_at 1\<rparr>"
  let ?e2 = "\<lparr>entry_note = 69, entry_source = voice_at 2\<rparr>"
  let ?calls = "[(clock1, Some 3), (clock1, Some (4::real))]"
  have m: "Frequency_toMidi (Str ''A4'') = 69" by code_simp
  have q0: "activeSources sampler_A4 (Frequency_toMidi (Str ''A4'')) = None"
    by (simp add: sampler_A4_def)
  have q2: "activeSources sampler_A4_twice (Frequency_toMidi (Str ''A4'')) = Some [?e1, ?e2]"
    unfolding m by (simp add: sampler_A4_twice_def)
  have len: "length ?calls = length [?e1, ?e2]" by simp
  from triggerRelease_fifo [of sampler_A4 Frequency_toMidi "Str ''A4''" clock1 None
      "[]" "[]" None sampler_A4] q0
  have noop: "triggerRelease Frequency_toMidi clock1 sampler_A4 (Str ''A4'') None = (None, sampler_A4)"
    by blast
  from triggerRelease_fifo [of sampler_A4_twice Frequency_toMidi "Str ''A4''" clock1 None
      "[?e1, ?e2]" ?calls None sampler_A4_twice] q2 len
  have "releases Frequency_toMidi sampler_A4_twice (Str ''A4'') ?calls =
          (map (\<lambda>(e, c, t). Some (stop c (entry_source e) t (Some (release sampler_A4_twice))))
             (zip [?e1, ?e2] ?calls),
           sampler_A4_twice\<lparr>activeSources :=
             (activeSources sampler_A4_twice)(Frequency_toMidi (Str ''A4'') \<mapsto> [])\<rparr>)"
    by blast
  moreover have "sampler_A4_twice\<lparr>activeSources :=
             (activeSources sampler_A4_twice)(Frequency_toMidi (Str ''A4'') \<mapsto> [])\<rparr>
      = sampler_A4\<lparr>activeSources := [69 \<mapsto> []]\<rparr>"
    unfolding m by (simp add: sampler_A4_twice_def)
  moreover have "release sampler_A4_twice = 1 / 10"
    by (simp add: sampler_A4_twice_def sampler_A4_def)
  ultimately have fifo:
    "releases Frequency_toMidi sampler_A4_twice (Str ''A4'') ?calls
       = ([Some (stop clock1 (voice_at 1) (Some 3) (Some (1 / 10))),
           Some (stop clock1 (voice_at 2) (Some 4) (Some (1 / 10)))],
          sampler_A4\<lparr>activeSources := [69 \<mapsto> []]\<rparr>)"
    by simp
  have st: "map_sum id stopTime (stop clock1 (voice_at 1) (Some 3) (Some (1 / 10))) = Inr (31 / 10)"
    "map_sum id stopTime (stop clock1 (voice_at 2) (Some 4) (Some (1 / 10))) = Inr (41 / 10)"
    by (simp_all add: stop_def voice_at_fields Let_def toSeconds_def)
  from noop sampler_A4_attack_once sampler_A4_attack_twice fifo voice_at_fields(1) st
  show ?thesis by simp
qed

section \<open>add: which keys are accepted\<close>

lemma Buffers_add_stored:
  "Buffers_add b k src = b(ToString k \<mapsto> stored src)"
  by (simp add: Buffers_add_def)

lemma add_cases:
  "add toMidi s note0 url =
     (if \<not> isNote note0 \<and> parseFloat_isNaN note0 then Inl InvalidKeyError
      else Inr (s\<lparr>buffers := (buffers s)
              (ToString (if isNote note0 then Num (toMidi note0) else note0) \<mapsto> stored url)\<rparr>))"
  by (simp add: add_def normalizeKey_def Buffers_add_stored)

lemma scenario_keys:
  "isNote (Str ''A4'')" "Frequency_toMidi (Str ''A4'') = 69" "show_int 69 = ''69''"
  "\<not> isNote (Str ''69'')" "\<not> parseFloat_isNaN (Str ''69'')"
  "\<not> isNote (Str ''nope'')" "parseFloat_isNaN (Str ''nope'')"
  "\<not> isNote (Num 69)" "\<not> parseFloat_isNaN (Num 69)"
  by code_simp+

text \<open>
  C8, as it holds of the code. \<open>add\<close> fails with \<open>InvalidKeyError\<close> exactly when
  the key is neither pitch notation (\<open>isNote\<close>) nor read as a number by
  \<open>parseFloat\<close>; otherwise it stores the sample, under the MIDI number of a note name
  or under the key as given. So \<open>add("nope", x)\<close> fails, and \<open>add("A4", x)\<close>,
  \<open>add("69", x)\<close> and \<open>add(69, x)\<close> succeed and are the same: each stores the
  sample under the key 69. Only the key is inspected, never the source of the sample.
\<close>

theorem add_key_validation:
  "add toMidi s note0 url =
     (if \<not> isNote note0 \<and> parseFloat_isNaN note0 then Inl InvalidKeyError
      else Inr (s\<lparr>buffers := (buffers s)
              (ToString (if isNote note0 then Num (toMidi note0) else note0) \<mapsto> stored url)\<rparr>))
   \<and> add Frequency_toMidi s (Str ''nope'') url = Inl InvalidKeyError
   \<and> add Frequency_toMidi s (Str ''A4'') url = Inr (s\<lparr>buffers := (buffers s)(''69'' \<mapsto> stored url)\<rparr>)
   \<and> add Frequency_toMidi s (Str ''69'') url = add Frequency_toMidi s (Str ''A4'') url
   \<and> add Frequency_toMidi s (Num 69) url = add Frequency_toMidi s (Str ''A4'') url"
proof -
  have nope: "add Frequency_toMidi s (Str ''nope'') url = Inl InvalidKeyError"
    unfolding add_cases using scenario_keys(6,7) by simp
  have a4: "add Frequency_toMidi s (Str ''A4'') url
      = Inr (s\<lparr>buffers := (buffers s)(''69'' \<mapsto> stored url)\<rparr>)"
    unfolding add_cases using scenario_keys(1,2,3) by simp
  have s69: "add Frequency_toMidi s (Str ''69'') url
      = Inr (s\<lparr>buffers := (buffers s)(''69'' \<mapsto> stored url)\<rparr>)"
    unfolding add_cases using scenario_keys(4,5) by simp
  have n69: "add Frequency_toMidi s (Num 69) url
      = Inr (s\<lparr>buffers := (buffers s)(''69'' \<mapsto> stored url)\<rparr>)"
    unfolding add_cases using scenario_keys(3,8,9) by simp
  from add_cases [of toMidi s note0 url] nope a4 s69 n69 show ?thesis by simp
qed

text \<open>
  C8 as stated fails for \<open>add(69, "G4")\<close>: the key 69 is a number, so the call does not
  fail with \<open>InvalidKeyError\<close>; it stores a buffer, still to be loaded from the url
  \<open>G4\<close>, under the key 69.
\<close>

theorem add_numeric_key_counterexample:
  "add Frequency_toMidi sampler_A4 (Num 69) (Url ''G4'')
     = Inr (sampler_A4\<lparr>buffers := bank_A4(''69'' \<mapsto> unset_buffer)\<rparr>)
   \<and> add Frequency_toMidi sampler_A4 (Num 69) (Url ''G4'') \<noteq> Inl InvalidKeyError"
proof -
  have "add Frequency_toMidi sampler_A4 (Num 69) (Url ''G4'')
     = Inr (sampler_A4\<lparr>buffers := bank_A4(''69'' \<mapsto> unset_buffer)\<rparr>)"
    unfolding add_cases using scenario_keys(3,8,9) by (simp add: stored_def sampler_A4_def)
  then show ?thesis by simp
qed

section \<open>The keys of the stored samples\<close>

lemma digit_char_isDigit: "isDigit (digit_char d)"
proof -
  have "d mod 10 < length ''0123456789''" by simp
  then have "''0123456789'' ! (d mod 10) \<in> set ''0123456789''" by (rule nth_mem)
  then show ?thesis by (simp only: isDigit_def digit_char_def)
qed

lemma show_nat_digits: "show_nat n \<noteq> [] \<and> list_all isDigit (show_nat n)"
proof (induction n rule: show_nat.induct)
  case (1 n)
  show ?case
  proof (cases "n < 10")
    case True
    then show ?thesis by (simp add: show_nat.simps [of n] digit_char_isDigit)
  next
    case False
    with "1.IH" show ?thesis by (simp add: show_nat.simps [of n] digit_char_isDigit)
  qed
qed

lemma isDigit_plain: "isDigit c \<Longrightarrow> \<not> isSpace c \<and> c \<noteq> CHR ''+'' \<and> c \<noteq> CHR ''-'' \<and> c \<noteq> CHR ''.''"
  by (auto simp: isDigit_def isSpace_def)

lemma digits_parse:
  assumes "ds \<noteq> []" and "list_all isDigit ds"
  shows "signedLiteralStart (dropWhile isSpace ds)" and "literalStart ds"
proof -
  from assms obtain d rest where ds: "ds = d # rest" and d: "isDigit d"
    by (cases ds) auto
  from d isDigit_plain [OF d] show "signedLiteralStart (dropWhile isSpace ds)"
    by (simp add: ds)
  from d show "literalStart ds" by (simp add: ds)
qed

lemma show_int_parses: "\<not> parseFloat_isNaN (Num i)"
proof (cases "i < 0")
  case True
  have "\<not> isSpace (CHR ''-'')" by (simp add: isSpace_def)
  with True digits_parse(2) [of "show_nat (nat (- i))"] show_nat_digits [of "nat (- i)"]
  show ?thesis by (simp add: parseFloat_isNaN_def show_int_def)
next
  case False
  with digits_parse(1) [of "show_nat (nat i)"] show_nat_digits [of "nat i"]
  show ?thesis by (simp add: parseFloat_isNaN_def show_int_def)
qed

lemma parseFloat_isNaN_ToString: "parseFloat_isNaN (Str (ToString x)) = parseFloat_isNaN x"
  by (simp add: parseFloat_isNaN_def)

lemma normalizeKey_parses:
  "normalizeKey toMidi note0 = Inr k \<Longrightarrow> \<not> parseFloat_isNaN (Str (ToString k))"
  using show_int_parses [of "toMidi note0"]
  by (auto simp: normalizeKey_def parseFloat_isNaN_ToString split: if_splits)

lemma urlMap_loop_keys:
  "urlMap_loop toMidi urls acc = Inr m \<Longrightarrow>
     \<forall>k \<in> fst ` set acc. \<not> parseFloat_isNaN (Str k) \<Longrightarrow>
     \<forall>k \<in> fst ` set m. \<not> parseFloat_isNaN (Str k)"
proof (induction urls arbitrary: acc)
  case Nil
  then show ?case by simp
next
  case (Cons u urls)
  obtain note0 url where u: "u = (note0, url)" by (cases u)
  from Cons.prems(1) u obtain k where k: "normalizeKey toMidi (Str note0) = Inr k"
    and rest: "urlMap_loop toMidi urls (acc @ [(ToString k, url)]) = Inr m"
    by (auto split: sum.splits)
  from normalizeKey_parses [OF k] Cons.prems(2)
  have "\<forall>k \<in> fst ` set (acc @ [(ToString k, url)]). \<not> parseFloat_isNaN (Str k)" by auto
  from Cons.IH [OF rest this] show ?case .
qed

lemma dom_Buffers_add: "dom (Buffers_add b k url) = insert (ToString k) (dom b)"
  by (simp add: Buffers_add_def)

lemma dom_Buffers: "dom (Buffers b m) = dom b \<union> fst ` set m"
proof (induction m arbitrary: b)
  case Nil
  show ?case by simp
next
  case (Cons p m)
  obtain k url where p: "p = (k, url)" by (cases p)
  have "dom (Buffers b (p # m)) = dom (Buffers (Buffers_add b (Str k) url) m)"
    by (simp add: p)
  also have "\<dots> = dom (Buffers_add b (Str k) url) \<union> fst ` set m"
    by (rule Cons.IH)
  also have "\<dots> = dom b \<union> fst ` set (p # m)"
    by (simp add: dom_Buffers_add p)
  finally show ?case .
qed

text \<open>
  C9, as it holds of the code. The constructor establishes, and every \<open>add\<close> preserves,
  that \<open>parseFloat\<close> reads a number from every stored key. A pitch-notation key is
  converted to its MIDI integer at ingestion and stored under the decimal digits of that
  integer; every other accepted key is one from which \<open>parseFloat\<close> reads a number,
  and it is stored as given, whether or not it is an integer.
\<close>

theorem sample_keys_invariant:
  "(MultiSampler toMidi urls attack0 release0 = Inr s \<longrightarrow>
      (\<forall>k \<in> dom (buffers s). \<not> parseFloat_isNaN (Str k)))
   \<and> ((\<forall>k \<in> dom (buffers s). \<not> parseFloat_isNaN (Str k)) \<and> add toMidi s note0 url = Inr s' \<longrightarrow>
      (\<forall>k \<in> dom (buffers s'). \<not> parseFloat_isNaN (Str k)))
   \<and> (isNote note0 \<longrightarrow>
        normalizeKey toMidi note0 = Inr (Num (toMidi note0))
      \<and> add toMidi s note0 url
          = Inr (s\<lparr>buffers := (buffers s)(show_int (toMidi note0) \<mapsto> stored url)\<rparr>))
   \<and> (\<not> isNote note0 \<and> \<not> parseFloat_isNaN note0 \<longrightarrow>
        normalizeKey toMidi note0 = Inr note0
      \<and> add toMidi s note0 url = Inr (s\<lparr>buffers := (buffers s)(ToString note0 \<mapsto> stored url)\<rparr>))"
proof -
  have a: "MultiSampler toMidi urls attack0 release0 = Inr s \<longrightarrow>
      (\<forall>k \<in> dom (buffers s). \<not> parseFloat_isNaN (Str k))"
  proof
    assume "MultiSampler toMidi urls attack0 release0 = Inr s"
    then obtain m where m: "urlMap_loop toMidi urls [] = Inr m"
      and s: "buffers s = Buffers Map.empty m"
      by (auto simp: MultiSampler_def split: sum.splits)
    from urlMap_loop_keys [OF m] have "\<forall>k \<in> fst ` set m. \<not> parseFloat_isNaN (Str k)" by simp
    then show "\<forall>k \<in> dom (buffers s). \<not> parseFloat_isNaN (Str k)"
      by (simp add: s dom_Buffers)
  qed
  have b: "(\<forall>k \<in> dom (buffers s). \<not> parseFloat_isNaN (Str k)) \<and> add toMidi s note0 url = Inr s' \<longrightarrow>
      (\<forall>k \<in> dom (buffers s'). \<not> parseFloat_isNaN (Str k))"
  proof
    assume h: "(\<forall>k \<in> dom (buffers s). \<not> parseFloat_isNaN (Str k)) \<and> add toMidi s note0 url = Inr s'"
    then obtain k where k: "normalizeKey toMidi note0 = Inr k"
      and s': "buffers s' = Buffers_add (buffers s) k url"
      by (auto simp: add_def split: sum.splits)
    from normalizeKey_parses [OF k] h show "\<forall>k \<in> dom (buffers s'). \<not> parseFloat_isNaN (Str k)"
      by (auto simp: s' Buffers_add_def)
  qed
  have c: "isNote note0 \<longrightarrow>
        normalizeKey toMidi note0 = Inr (Num (toMidi note0))
      \<and> add toMidi s note0 url
          = Inr (s\<lparr>buffers := (buffers s)(show_int (toMidi note0) \<mapsto> stored url)\<rparr>)"
    by (simp add: add_def normalizeKey_def Buffers_add_def)
  have d: "\<not> isNote note0 \<and> \<not> parseFloat_isNaN note0 \<longrightarrow>
        normalizeKey toMidi note0 = Inr note0
      \<and> add toMidi s note0 url = Inr (s\<lparr>buffers := (buffers s)(ToString note0 \<mapsto> stored url)\<rparr>)"
    by (simp add: add_def normalizeKey_def Buffers_add_def)
  from a b c d show ?thesis by blast
qed

theorem sample_keys_invariant_witness:
  "MultiSampler Frequency_toMidi [(''A4'', Buffer bufferX)] 0 (1 / 10) = Inr sampler_A4
   \<and> dom (buffers sampler_A4) = {''69''}
   \<and> \<not> parseFloat_isNaN (Str ''69'')
   \<and> isNote (Str ''C5'')
   \<and> add Frequency_toMidi sampler_A4 (Str ''C5'') (Buffer bufferX)
       = Inr (sampler_A4\<lparr>buffers := bank_A4(''72'' \<mapsto> bufferX)\<rparr>)
   \<and> \<not> parseFloat_isNaN (Str ''72'')
   \<and> \<not> isNote (Str ''60'') \<and> \<not> parseFloat_isNaN (Str ''60'')
   \<and> add Frequency_toMidi sampler_A4 (Str ''60'') (Buffer bufferX)
       = Inr (sampler_A4\<lparr>buffers := bank_A4(''60'' \<mapsto> bufferX)\<rparr>)"
proof -
  let ?s' = "sampler_A4\<lparr>buffers := bank_A4(''72'' \<mapsto> bufferX)\<rparr>"
  have k: "isNote (Str ''A4'')" "Frequency_toMidi (Str ''A4'') = 69" "show_int 69 = ''69''"
    "isNote (Str ''C5'')" "Frequency_toMidi (Str ''C5'') = 72" "show_int 72 = ''72''"
    "\<not> isNote (Str ''60'')" "\<not> parseFloat_isNaN (Str ''60'')"
    by code_simp+
  have mk: "MultiSampler Frequency_toMidi [(''A4'', Buffer bufferX)] 0 (1 / 10) = Inr sampler_A4"
    using k(1-3) by (simp add: MultiSampler_def normalizeKey_def Buffers_add_def stored_def
        sampler_A4_def bank_A4_def)
  have dm: "dom (buffers sampler_A4) = {''69''}" by (simp add: sampler_A4_def bank_A4_def)
  note inst = sample_keys_invariant [of Frequency_toMidi "[(''A4'', Buffer bufferX)]" 0 "1 / 10"
      sampler_A4 "Str ''C5''" "Buffer bufferX" ?s']
  from inst mk have inv: "\<forall>k \<in> dom (buffers sampler_A4). \<not> parseFloat_isNaN (Str k)" by blast
  then have p69: "\<not> parseFloat_isNaN (Str ''69'')" by (simp add: dm)
  from inst k(4) have "add Frequency_toMidi sampler_A4 (Str ''C5'') (Buffer bufferX)
          = Inr (sampler_A4\<lparr>buffers := (buffers sampler_A4)
                  (show_int (Frequency_toMidi (Str ''C5'')) \<mapsto> stored (Buffer bufferX))\<rparr>)"
    by blast
  then have ad: "add Frequency_toMidi sampler_A4 (Str ''C5'') (Buffer bufferX) = Inr ?s'"
    by (simp add: k(5,6) stored_def sampler_A4_def del: Frequency_toMidi.simps)
  from inst inv ad have "\<forall>k \<in> dom (buffers ?s'). \<not> parseFloat_isNaN (Str k)" by blast
  then have p72: "\<not> parseFloat_isNaN (Str ''72'')" by simp
  from sample_keys_invariant [of Frequency_toMidi "[]" 0 0 sampler_A4 "Str ''60''"
      "Buffer bufferX" sampler_A4] k(7,8)
  have "add Frequency_toMidi sampler_A4 (Str ''60'') (Buffer bufferX)
       = Inr (sampler_A4\<lparr>buffers := (buffers sampler_A4)(ToString (Str ''60'') \<mapsto> stored (Buffer bufferX))\<rparr>)"
    by blast
  then have a60: "add Frequency_toMidi sampler_A4 (Str ''60'') (Buffer bufferX)
       = Inr (sampler_A4\<lparr>buffers := bank_A4(''60'' \<mapsto> bufferX)\<rparr>)"
    by (simp add: stored_def sampler_A4_def)
  from mk dm p69 k(4) ad p72 k(7,8) a60 show ?thesis by blast
qed

lemma show_int_chars: "set (show_int i) \<subseteq> insert (CHR ''-'') {c. isDigit c}"
  using show_nat_digits [of "nat i"] show_nat_digits [of "nat (- i)"]
  by (auto simp: show_int_def list_all_iff)

lemma dotted_key_not_integer: "CHR ''.'' \<in> set k \<Longrightarrow> k \<notin> range show_int"
  using show_int_chars isDigit_plain by fastforce

lemma lettered_key_not_integer: "CHR ''a'' \<in> set k \<Longrightarrow> k \<notin> range show_int"
proof -
  have "\<not> isDigit (CHR ''a'')" by (simp add: isDigit_def)
  then show "CHR ''a'' \<in> set k \<Longrightarrow> k \<notin> range show_int"
    using show_int_chars by fastforce
qed

text \<open>
  C9 as stated fails: \<open>add("69.5", x)\<close> succeeds and stores the sample under the key
  \<open>69.5\<close>, and a sampler constructed with the key \<open>12abc\<close> stores the sample under
  that key; neither is the key of an integer.
\<close>

theorem sample_keys_counterexample:
  "add Frequency_toMidi sampler_A4 (Str ''69.5'') (Buffer bufferX)
     = Inr (sampler_A4\<lparr>buffers := bank_A4(''69.5'' \<mapsto> bufferX)\<rparr>)
   \<and> ''69.5'' \<in> dom (bank_A4(''69.5'' \<mapsto> bufferX))
   \<and> ''69.5'' \<notin> range show_int
   \<and> MultiSampler_default Frequency_toMidi [(''12abc'', Buffer bufferX)]
       = Inr \<lparr>buffers = [''12abc'' \<mapsto> bufferX], activeSources = Map.empty,
              attack = 0, release = 1 / 10\<rparr>
   \<and> ''12abc'' \<notin> range show_int"
proof -
  have k1: "\<not> isNote (Str ''69.5'')" "\<not> parseFloat_isNaN (Str ''69.5'')" by code_simp+
  have k2: "\<not> isNote (Str ''12abc'')" "\<not> parseFloat_isNaN (Str ''12abc'')" by code_simp+
  have a: "add Frequency_toMidi sampler_A4 (Str ''69.5'') (Buffer bufferX)
     = Inr (sampler_A4\<lparr>buffers := bank_A4(''69.5'' \<mapsto> bufferX)\<rparr>)"
    using k1 by (simp add: add_def normalizeKey_def Buffers_add_def stored_def sampler_A4_def)
  have b: "''69.5'' \<notin> range show_int" by (rule dotted_key_not_integer) simp
  have c: "MultiSampler_default Frequency_toMidi [(''12abc'', Buffer bufferX)]
       = Inr \<lparr>buffers = [''12abc'' \<mapsto> bufferX], activeSources = Map.empty,
              attack = 0, release = 1 / 10\<rparr>"
    using k2 by (simp add: MultiSampler_default_def MultiSampler_def normalizeKey_def
        Buffers_add_def stored_def)
  have d: "''12abc'' \<notin> range show_int" by (rule lettered_key_not_integer) simp
  from a b c d show ?thesis by simp
qed

end
